theory Spec2Isabelle
  imports Main
begin

section \<open>The YouTube data collector (src/youtube_data_collector.py)\<close>

text \<open>
  The program is a linear pipeline around three remote collaborators: the search
  endpoint, the video-details endpoint and the transcript service. Each function of
  class \<open>YouTubeDataCollector\<close> is embedded as a HOL function of the collaborators'
  answers. What a function does beyond returning a value (remote calls, progress
  output, the pause between batches) is returned as a list of events, in program
  order.
\<close>

subsection \<open>Exceptions, strings, dynamically typed values\<close>

text \<open>
  Only subclasses of Python's \<open>Exception\<close> are modelled. \<open>HttpError\<close> is kept apart
  because the search loop catches it separately; \<open>KeyError\<close> is what a subscript
  \<open>d[k]\<close> raises on a dictionary without the key \<open>k\<close>.
\<close>

datatype exn =
    HttpError nat string
  | KeyError string
  | OtherException string

text \<open>
  A value that is either the integer default of \<open>dict.get(key, 0)\<close> or whatever the
  response carried under the key (the API delivers counts as strings).
\<close>

datatype pyval = PyInt int | PyStr string

text \<open>\<open>d[k]\<close> on a dictionary whose entry for \<open>k\<close> is the option \<open>v\<close>.\<close>

definition getitem :: "string \<Rightarrow> 'a option \<Rightarrow> exn + 'a" where
  "getitem k v = (case v of None \<Rightarrow> Inl (KeyError k) | Some x \<Rightarrow> Inr x)"

text \<open>Sequencing of steps that may raise: the first exception ends the sequence.\<close>

definition and_then :: "exn + 'a \<Rightarrow> ('a \<Rightarrow> exn + 'b) \<Rightarrow> exn + 'b" where
  "and_then m f = (case m of Inl e \<Rightarrow> Inl e | Inr x \<Rightarrow> f x)"

text \<open>\<open>sep.join(xs)\<close> on a list of strings.\<close>

fun join :: "'a list \<Rightarrow> 'a list list \<Rightarrow> 'a list" where
  "join sep [] = []"
| "join sep [x] = x"
| "join sep (x # y # ys) = x @ sep @ join sep (y # ys)"

text \<open>
  The topic string is a Python \<open>str\<close>: a sequence of Unicode code points. The character
  classes \<open>str.isalnum\<close> and the whitespace that \<open>str.strip\<close> removes are fixed on
  ASCII; beyond ASCII they are read from the Unicode database of the interpreter,
  which is a parameter here.
\<close>

type_synonym pystr = "nat list"

record unicode_db =
  alnum_beyond_ascii :: "nat \<Rightarrow> bool"
  space_beyond_ascii :: "nat \<Rightarrow> bool"

definition isalnum :: "unicode_db \<Rightarrow> nat \<Rightarrow> bool" where
  "isalnum U c =
     (if c < 128 then (48 \<le> c \<and> c \<le> 57) \<or> (65 \<le> c \<and> c \<le> 90) \<or> (97 \<le> c \<and> c \<le> 122)
      else alnum_beyond_ascii U c)"

definition isspace :: "unicode_db \<Rightarrow> nat \<Rightarrow> bool" where
  "isspace U c =
     (if c < 128 then (9 \<le> c \<and> c \<le> 13) \<or> (28 \<le> c \<and> c \<le> 32)
      else space_beyond_ascii U c)"

definition strip :: "unicode_db \<Rightarrow> pystr \<Rightarrow> pystr" where
  "strip U s = rev (dropWhile (isspace U) (rev (dropWhile (isspace U) s)))"

definition pystr_of :: "string \<Rightarrow> pystr" where
  "pystr_of s = map of_char s"

subsection \<open>Requests, responses and events\<close>

text \<open>
  Responses are JSON objects. A key the code reads is a field of option type: \<open>None\<close>
  is the absent key, on which a subscript raises \<open>KeyError\<close>, \<open>dict.get\<close> yields its
  default and \<open>in\<close> is false. \<open>id_videoId\<close> is \<open>item["id"]["videoId"]\<close> of a search
  item.
\<close>

record search_request =
  q :: pystr
  part :: string
  type_filter :: string
  maxResults :: int
  pageToken :: "string option"
  order :: string
  regionCode :: "string option"
  relevanceLanguage :: string

record search_item =
  id_videoId :: "string option"

record search_response =
  search_items :: "search_item list option"
  nextPageToken :: "string option"

record videos_request =
  videos_part :: string
  videos_id :: string

record snippet_part =
  title :: "string option"
  description :: "string option"
  channelTitle :: "string option"
  tags :: "string list option"
  categoryId :: "string option"
  publishedAt :: "string option"

record content_details_part =
  duration :: "string option"

record statistics_part =
  viewCount :: "pyval option"
  commentCount :: "pyval option"

record video_item =
  item_id :: "string option"
  snippet :: "snippet_part option"
  contentDetails :: "content_details_part option"
  statistics :: "statistics_part option"

record videos_response =
  items :: "video_item list option"

text \<open>
  The transcript service: \<open>list_transcripts\<close> answers with an object whose two lookup
  methods answer with a transcript, whose \<open>fetch\<close> answers with the caption entries.
  The argument of \<open>find_manually_created_transcript\<close> is optional in the model,
  because the program calls it with no argument at all.
\<close>

record caption_entry =
  entry_text :: "string option"

record transcript =
  fetch :: "exn + caption_entry list"

record transcript_list =
  find_transcript :: "string list \<Rightarrow> exn + transcript"
  find_manually_created_transcript :: "string list option \<Rightarrow> exn + transcript"

text \<open>
  The collaborators. The search and the details endpoint are asked once per page and
  once per batch; their answer may depend on the request and on how many calls of the
  same kind came before (the first argument), so that every pattern of failing and
  succeeding calls is a value of this type. The transcript service answers per
  identifier. \<open>parse_duration\<close> is \<open>str(isodate.parse_duration(s))\<close>.
\<close>

record api =
  search_execute :: "nat \<Rightarrow> search_request \<Rightarrow> exn + search_response"
  videos_execute :: "nat \<Rightarrow> videos_request \<Rightarrow> exn + videos_response"
  list_transcripts :: "string \<Rightarrow> exn + transcript_list"
  parse_duration :: "string \<Rightarrow> exn + string"

text \<open>The messages printed, one constructor per \<open>print\<close> of the source.\<close>

datatype message =
    SearchingForTop int
  | GenreTopic pystr
  | NoMoreVideos
  | NoVideosInResponse
  | ApiErrorDuringSearch exn
  | TotalVideosFound nat
  | ErrorInSearch exn
  | GettingDetailsFor nat
  | ErrorProcessingBatch exn
  | ErrorInGetVideoDetails exn

text \<open>\<open>Sleep ms\<close> is \<open>time.sleep\<close> of \<open>ms\<close> milliseconds.\<close>

datatype event =
    Print message
  | PbarOpen int
  | PbarUpdate
  | PbarClose
  | SearchCall search_request
  | VideosCall videos_request
  | ListTranscripts string
  | FindTranscript "string list"
  | FindManuallyCreatedTranscript "string list option"
  | Fetch
  | Sleep nat

fun is_sleep :: "event \<Rightarrow> bool" where
  "is_sleep (Sleep ms) = True"
| "is_sleep e = False"

fun is_search_call :: "event \<Rightarrow> bool" where
  "is_search_call (SearchCall r) = True"
| "is_search_call e = False"

subsection \<open>\<open>get_video_captions\<close> (lines 81-99)\<close>

text \<open>\<open>[entry["text"] for entry in caption_data]\<close>: the first entry without the key raises.\<close>

fun entry_texts :: "caption_entry list \<Rightarrow> exn + string list" where
  "entry_texts [] = Inr []"
| "entry_texts (entry # rest) =
     and_then (getitem ''text'' (entry_text entry)) (\<lambda>t.
     and_then (entry_texts rest) (\<lambda>ts. Inr (t # ts)))"

text \<open>Lines 94-96, after a transcript has been resolved; \<open>evs\<close> are the events so far.\<close>

definition fetch_full_text :: "transcript \<Rightarrow> event list \<Rightarrow> (exn + string) \<times> event list" where
  "fetch_full_text tr evs =
     (and_then (fetch tr) (\<lambda>caption_data.
      and_then (entry_texts caption_data) (\<lambda>ts. Inr (join '' '' ts))),
      evs @ [Fetch])"

text \<open>
  The inner \<open>try\<close> (lines 88-92). Its handler is a bare \<open>except\<close>: whatever the
  lookup of the English track raises, the fallback is attempted, and what the fallback
  raises is not caught here.
\<close>

definition resolve_transcript :: "transcript_list \<Rightarrow> (exn + transcript) \<times> event list" where
  "resolve_transcript transcript_list =
     (case find_transcript transcript_list [''en''] of
        Inr tr \<Rightarrow> (Inr tr, [FindTranscript [''en'']])
      | Inl e \<Rightarrow>
          (find_manually_created_transcript transcript_list None,
           [FindTranscript [''en''], FindManuallyCreatedTranscript None]))"

text \<open>The body of the outer \<open>try\<close> (lines 86-97).\<close>

definition captions_try :: "api \<Rightarrow> string \<Rightarrow> (exn + string) \<times> event list" where
  "captions_try A video_id =
     (case list_transcripts A video_id of
        Inl e \<Rightarrow> (Inl e, [ListTranscripts video_id])
      | Inr transcript_list \<Rightarrow>
         (case resolve_transcript transcript_list of
            (Inl e, evs) \<Rightarrow> (Inl e, ListTranscripts video_id # evs)
          | (Inr tr, evs) \<Rightarrow> fetch_full_text tr (ListTranscripts video_id # evs)))"

text \<open>
  The whole function: \<open>except Exception\<close> turns every exception of the body into the
  pair \<open>(False, "")\<close>. The result keeps the shape of a call that could raise, so that
  "does not raise" is a statement about the function and not about its type.
\<close>

definition get_video_captions ::
    "api \<Rightarrow> string \<Rightarrow> (exn + bool \<times> string) \<times> event list" where
  "get_video_captions A video_id =
     (case captions_try A video_id of
        (Inr full_text, evs) \<Rightarrow> (Inr (True, full_text), evs)
      | (Inl e, evs) \<Rightarrow> (Inr (False, []), evs))"

subsection \<open>\<open>get_video_details\<close> (lines 101-165)\<close>

text \<open>
  A row of the output, in the order of the dictionary literal of lines 128-149. The
  counts are not converted: they are the response's value, or the integer \<open>0\<close>.
\<close>

record video_info =
  Video_URL :: string
  Title :: string
  Description :: string
  Channel_Title :: string
  Keyword_Tags :: string
  YouTube_Video_Category :: string
  Video_Published_at :: string
  Video_Duration :: string
  View_Count :: pyval
  Comment_Count :: pyval
  Captions_Available :: bool
  Caption_Text :: string

text \<open>
  The dictionary literal. Its values are evaluated in order, and the first missing key
  or unparsable duration raises; \<open>dict.get\<close> does not raise.
\<close>

definition make_video_info :: "api \<Rightarrow> video_item \<Rightarrow> bool \<Rightarrow> string \<Rightarrow> exn + video_info" where
  "make_video_info A item has_captions caption_text =
     and_then (getitem ''id'' (item_id item)) (\<lambda>vid.
     and_then (getitem ''snippet'' (snippet item)) (\<lambda>sn.
     and_then (getitem ''title'' (title sn)) (\<lambda>the_title.
     and_then (getitem ''description'' (description sn)) (\<lambda>the_description.
     and_then (getitem ''channelTitle'' (channelTitle sn)) (\<lambda>the_channel.
     and_then (getitem ''categoryId'' (categoryId sn)) (\<lambda>the_category.
     and_then (getitem ''publishedAt'' (publishedAt sn)) (\<lambda>the_published.
     and_then (getitem ''contentDetails'' (contentDetails item)) (\<lambda>cd.
     and_then (getitem ''duration'' (duration cd)) (\<lambda>the_duration.
     and_then (parse_duration A the_duration) (\<lambda>duration_str.
     and_then (getitem ''statistics'' (statistics item)) (\<lambda>st.
     Inr \<lparr> Video_URL = ''https://www.youtube.com/watch?v='' @ vid,
           Title = the_title,
           Description = the_description,
           Channel_Title = the_channel,
           Keyword_Tags = join '','' (case tags sn of None \<Rightarrow> [] | Some ts \<Rightarrow> ts),
           YouTube_Video_Category = the_category,
           Video_Published_at = the_published,
           Video_Duration = duration_str,
           View_Count = (case viewCount st of None \<Rightarrow> PyInt 0 | Some v \<Rightarrow> v),
           Comment_Count = (case commentCount st of None \<Rightarrow> PyInt 0 | Some v \<Rightarrow> v),
           Captions_Available = has_captions,
           Caption_Text = (if has_captions then caption_text else []) \<rparr>)))))))))))"

text \<open>
  The state of a run: the events so far and, for this function, the rows appended to
  \<open>video_data\<close>.
\<close>

record run_state =
  events :: "event list"

record details_state = run_state +
  video_data :: "video_info list"

text \<open>
  The loop over the items of one response (lines 122-151). An exception leaves the
  loop with the rows appended so far still in \<open>video_data\<close>.
\<close>

fun items_loop :: "api \<Rightarrow> video_item list \<Rightarrow> details_state \<Rightarrow> exn option \<times> details_state" where
  "items_loop A [] s = (None, s)"
| "items_loop A (item # rest) s =
     (case getitem ''id'' (item_id item) of
        Inl e \<Rightarrow> (Some e, s)
      | Inr vid \<Rightarrow>
         (case get_video_captions A vid of
            (Inl e, evs) \<Rightarrow> (Some e, s\<lparr>events := events s @ evs\<rparr>)
          | (Inr (has_captions, caption_text), evs) \<Rightarrow>
             (case make_video_info A item has_captions caption_text of
                Inl e \<Rightarrow> (Some e, s\<lparr>events := events s @ evs\<rparr>)
              | Inr video_info \<Rightarrow>
                  items_loop A rest
                    (s\<lparr>events := events s @ evs @ [PbarUpdate],
                       video_data := video_data s @ [video_info]\<rparr>))))"

text \<open>
  One turn of the loop over the batches (lines 113-158); \<open>k\<close> counts the details calls
  made before this one. The handler of line 153 prints and ends the turn with
  \<open>continue\<close>; the turn reaches \<open>time.sleep(0.1)\<close> only when nothing was raised.
\<close>

definition videos_list :: "string list \<Rightarrow> videos_request" where
  "videos_list batch_ids =
     \<lparr> videos_part = ''snippet,contentDetails,statistics'',
       videos_id = join '','' batch_ids \<rparr>"

definition process_batch :: "api \<Rightarrow> nat \<Rightarrow> string list \<Rightarrow> details_state \<Rightarrow> details_state" where
  "process_batch A k batch_ids s =
     (let request = videos_list batch_ids;
          s1 = s\<lparr>events := events s @ [VideosCall request]\<rparr>
      in case videos_execute A k request of
           Inl e \<Rightarrow> s1\<lparr>events := events s1 @ [Print (ErrorProcessingBatch e)]\<rparr>
         | Inr response \<Rightarrow>
            (case items response of
               None \<Rightarrow> s1\<lparr>events := events s1 @ [Sleep 100]\<rparr>
             | Some its \<Rightarrow>
                (case items_loop A its s1 of
                   (Some e, s2) \<Rightarrow> s2\<lparr>events := events s2 @ [Print (ErrorProcessingBatch e)]\<rparr>
                 | (None, s2) \<Rightarrow> s2\<lparr>events := events s2 @ [Sleep 100]\<rparr>)))"

text \<open>\<open>for i in range(0, len(video_ids), 50)\<close> with \<open>batch_ids = video_ids[i : i + 50]\<close>.\<close>

function batch_loop :: "api \<Rightarrow> string list \<Rightarrow> nat \<Rightarrow> details_state \<Rightarrow> details_state" where
  "batch_loop A video_ids i s =
     (if i < length video_ids
      then batch_loop A video_ids (i + 50)
             (process_batch A (i div 50) (take 50 (drop i video_ids)) s)
      else s)"
  by pat_completeness auto
termination
  by (relation "measure (\<lambda>(A, video_ids, i, s). length video_ids - i)") auto

text \<open>
  The function. Nothing outside the loop's own \<open>try\<close> raises in this model, so the
  outer handler (line 163) has no branch.
\<close>

definition get_video_details :: "api \<Rightarrow> string list \<Rightarrow> video_info list \<times> event list" where
  "get_video_details A video_ids =
     (let s0 = \<lparr> events = [Print (GettingDetailsFor (length video_ids)),
                            PbarOpen (int (length video_ids))],
                  video_data = [] \<rparr>;
          s1 = batch_loop A video_ids 0 s0
      in (video_data s1, events s1 @ [PbarClose]))"

subsection \<open>\<open>search_videos_by_genre\<close> (lines 23-79)\<close>

record search_state = run_state +
  video_ids :: "string list"
  next_page_token :: "string option"
  calls :: nat

definition search_list :: "pystr \<Rightarrow> int \<Rightarrow> string option \<Rightarrow> search_request" where
  "search_list genre n token =
     \<lparr> q = genre, part = ''id'', type_filter = ''video'', maxResults = n,
       pageToken = token, order = ''viewCount'', regionCode = None,
       relevanceLanguage = [] \<rparr>"

fun is_http_error :: "exn \<Rightarrow> bool" where
  "is_http_error (HttpError status content) = True"
| "is_http_error e = False"

text \<open>\<open>not next_page_token\<close>: the key was absent, or the token is the empty string.\<close>

definition falsy :: "string option \<Rightarrow> bool" where
  "falsy token = (case token of None \<Rightarrow> True | Some t \<Rightarrow> t = [])"

text \<open>The loop over the items of one page (lines 52-54).\<close>

fun ids_loop :: "search_item list \<Rightarrow> search_state \<Rightarrow> exn option \<times> search_state" where
  "ids_loop [] s = (None, s)"
| "ids_loop (item # rest) s =
     (case getitem ''videoId'' (id_videoId item) of
        Inl e \<Rightarrow> (Some e, s)
      | Inr v \<Rightarrow>
          ids_loop rest
            (s\<lparr>events := events s @ [PbarUpdate], video_ids := video_ids s @ [v]\<rparr>))"

text \<open>
  The \<open>while\<close> loop (lines 36-71). A page without items but with a cursor leaves the
  length of \<open>video_ids\<close> as it was, so the loop need not end: the result is \<open>None\<close>
  when it does not. \<open>Some (None, s)\<close> is the loop left by its condition or by
  \<open>break\<close>; \<open>Some (Some e, s)\<close> is an exception that the inner handler, which catches
  \<open>HttpError\<close> only, lets through.
\<close>

partial_function (option) search_loop ::
    "api \<Rightarrow> pystr \<Rightarrow> int \<Rightarrow> search_state \<Rightarrow> (exn option \<times> search_state) option" where
  "search_loop A genre max_results s =
     (if int (length (video_ids s)) < max_results then
        (let search_request =
               search_list genre (min 50 (max_results - int (length (video_ids s))))
                 (next_page_token s);
             s1 = s\<lparr>events := events s @ [SearchCall search_request], calls := calls s + 1\<rparr>
         in case search_execute A (calls s) search_request of
              Inl e \<Rightarrow>
                (if is_http_error e
                 then Some (None, s1\<lparr>events := events s1 @ [Print (ApiErrorDuringSearch e)]\<rparr>)
                 else Some (Some e, s1))
            | Inr search_response \<Rightarrow>
               (case search_items search_response of
                  None \<Rightarrow> Some (None, s1\<lparr>events := events s1 @ [Print NoVideosInResponse]\<rparr>)
                | Some its \<Rightarrow>
                   (case ids_loop its s1 of
                      (Some e, s2) \<Rightarrow> Some (Some e, s2)
                    | (None, s2) \<Rightarrow>
                       (if int (length (video_ids s2)) \<ge> max_results then Some (None, s2)
                        else
                          (let s3 = s2\<lparr>next_page_token := nextPageToken search_response\<rparr>
                           in if falsy (next_page_token s3)
                              then Some (None, s3\<lparr>events := events s3 @ [Print NoMoreVideos]\<rparr>)
                              else search_loop A genre max_results s3)))))
      else Some (None, s))"

text \<open>The state in which the loop is entered (lines 28-34).\<close>

definition search_start :: "pystr \<Rightarrow> int \<Rightarrow> search_state" where
  "search_start genre max_results =
     \<lparr> events = [Print (SearchingForTop max_results), Print (GenreTopic genre),
                 PbarOpen max_results],
       video_ids = [], next_page_token = None, calls = 0 \<rparr>"

declare search_loop.simps [code]

text \<open>
  The function (\<open>max_results\<close> is 500 when the caller gives none): the identifiers
  of the normal exit, or the empty list from the outer handler (line 77).
\<close>

definition search_videos_by_genre ::
    "api \<Rightarrow> pystr \<Rightarrow> int \<Rightarrow> (string list \<times> event list) option" where
  "search_videos_by_genre A genre max_results =
     (case search_loop A genre max_results (search_start genre max_results) of
           None \<Rightarrow> None
         | Some (None, s) \<Rightarrow>
             Some (video_ids s,
                   events s @ [PbarClose, Print (TotalVideosFound (length (video_ids s)))])
         | Some (Some e, s) \<Rightarrow> Some ([], events s @ [Print (ErrorInSearch e)]))"

subsection \<open>The file name of \<open>collect_data\<close> (lines 194-200)\<close>

definition safe_genre :: "unicode_db \<Rightarrow> pystr \<Rightarrow> pystr" where
  "safe_genre U genre =
     strip U (filter (\<lambda>c. isalnum U c \<or> c \<in> set (pystr_of '' -_'')) genre)"

text \<open>\<open>timestamp\<close> is \<open>datetime.now().strftime('%Y%m%d_%H%M%S')\<close>; the path is joined as on POSIX.\<close>

definition output_file :: "unicode_db \<Rightarrow> pystr \<Rightarrow> pystr \<Rightarrow> pystr" where
  "output_file U genre timestamp =
     pystr_of ''output'' @ pystr_of ''/'' @
     pystr_of ''youtube_'' @ safe_genre U genre @ pystr_of ''_'' @ timestamp @ pystr_of ''.csv''"

section \<open>Notions used in the statements\<close>

subsection \<open>Batches\<close>

text \<open>
  \<open>range(0, len(video_ids), 50)\<close> has \<open>nbatches\<close> elements, and the slice taken at its
  \<open>k\<close>-th element is \<open>batch ids k\<close>.
\<close>

definition nbatches :: "string list \<Rightarrow> nat" where
  "nbatches ids = (length ids + 49) div 50"

definition batch :: "string list \<Rightarrow> nat \<Rightarrow> string list" where
  "batch ids k = take 50 (drop (50 * k) ids)"

definition start_state :: details_state where
  "start_state = \<lparr> events = [], video_data = [] \<rparr>"

text \<open>What the \<open>k\<close>-th turn of the loop appends to the rows and to the events.\<close>

definition batch_records :: "api \<Rightarrow> string list \<Rightarrow> nat \<Rightarrow> video_info list" where
  "batch_records A ids k = video_data (process_batch A k (batch ids k) start_state)"

definition batch_events :: "api \<Rightarrow> string list \<Rightarrow> nat \<Rightarrow> event list" where
  "batch_events A ids k = events (process_batch A k (batch ids k) start_state)"

definition extend :: "details_state \<Rightarrow> details_state \<Rightarrow> details_state" where
  "extend s d = \<lparr> events = events s @ events d, video_data = video_data s @ video_data d \<rparr>"

definition batches_from :: "api \<Rightarrow> string list \<Rightarrow> nat \<Rightarrow> details_state" where
  "batches_from A ids k =
     \<lparr> events = concat (map (batch_events A ids) [k..<nbatches ids]),
       video_data = concat (map (batch_records A ids) [k..<nbatches ids]) \<rparr>"

text \<open>
  The \<open>k\<close>-th turn ends in the handler of line 153: the details call raised, or the
  processing of one of the returned items did.
\<close>

definition batch_raises :: "api \<Rightarrow> string list \<Rightarrow> nat \<Rightarrow> bool" where
  "batch_raises A ids k =
     (case videos_execute A k (videos_list (batch ids k)) of
        Inl e \<Rightarrow> True
      | Inr response \<Rightarrow>
         (case items response of
            None \<Rightarrow> False
          | Some its \<Rightarrow> fst (items_loop A its start_state) \<noteq> None))"

text \<open>
  The \<open>k\<close>-th details call answers with as many items as the batch has identifiers,
  and a row is assembled from each.
\<close>

definition one_row_per_id :: "api \<Rightarrow> string list \<Rightarrow> nat \<Rightarrow> bool" where
  "one_row_per_id A ids k =
     (case videos_execute A k (videos_list (batch ids k)) of
        Inl e \<Rightarrow> False
      | Inr response \<Rightarrow>
         (case items response of
            None \<Rightarrow> False
          | Some its \<Rightarrow>
              length its = length (batch ids k) \<and> fst (items_loop A its start_state) = None))"

text \<open>The same collaborators, except that the \<open>k\<close>-th details call raises \<open>e\<close>.\<close>

definition fail_batch :: "api \<Rightarrow> nat \<Rightarrow> exn \<Rightarrow> api" where
  "fail_batch A k e = A\<lparr>videos_execute := (videos_execute A)(k := (\<lambda>request. Inl e))\<rparr>"

subsection \<open>Rows and captions\<close>

text \<open>
  What \<open>get_video_captions\<close> returns once a transcript is resolved (lines 94-99): the
  joined text of its entries, or \<open>(False, "")\<close> when the fetch or an entry fails.
\<close>

definition captions_from :: "transcript \<Rightarrow> bool \<times> string" where
  "captions_from tr =
     (case fetch tr of
        Inl e \<Rightarrow> (False, [])
      | Inr caption_data \<Rightarrow>
         (case entry_texts caption_data of
            Inl e \<Rightarrow> (False, [])
          | Inr ts \<Rightarrow> (True, join '' '' ts)))"

text \<open>A row with its two caption fields reset.\<close>

definition blank :: "video_info \<Rightarrow> video_info" where
  "blank r = r\<lparr>Captions_Available := False, Caption_Text := []\<rparr>"

text \<open>The caption fields of a row are what \<open>get_video_captions\<close> returns for its video.\<close>

definition caption_fields_from :: "api \<Rightarrow> video_info \<Rightarrow> bool" where
  "caption_fields_from A r =
     (\<exists>vid. Video_URL r = ''https://www.youtube.com/watch?v='' @ vid
         \<and> fst (get_video_captions A vid) = Inr (Captions_Available r, Caption_Text r))"

text \<open>A row that the dictionary literal yields for an item, whatever the captions.\<close>

definition assembled_from :: "api \<Rightarrow> video_item \<Rightarrow> video_info \<Rightarrow> bool" where
  "assembled_from A item r =
     (\<exists>has_captions caption_text. make_video_info A item has_captions caption_text = Inr r)"

subsection \<open>Search pages\<close>

text \<open>The identifiers that the items of a page expose.\<close>

definition ids_of :: "search_item list \<Rightarrow> string list" where
  "ids_of its = concat (map (\<lambda>item. case id_videoId item of None \<Rightarrow> [] | Some v \<Rightarrow> [v]) its)"


subsection \<open>File names\<close>

text \<open>The characters that line 195 lets through.\<close>

definition allowed :: "unicode_db \<Rightarrow> nat \<Rightarrow> bool" where
  "allowed U c = (isalnum U c \<or> c \<in> set (pystr_of '' -_''))"

section \<open>Collaborators for concrete runs\<close>

text \<open>
  A details item with every key that the program subscripts, and without tags and
  counts.
\<close>

definition sample_item :: "string \<Rightarrow> video_item" where
  "sample_item vid =
     \<lparr> item_id = Some vid,
       snippet = Some \<lparr> title = Some ''Title'', description = Some ''Text'',
                        channelTitle = Some ''Channel'', tags = None,
                        categoryId = Some ''10'',
                        publishedAt = Some ''2020-01-01T00:00:00Z'' \<rparr>,
       contentDetails = Some \<lparr> duration = Some ''PT1M'' \<rparr>,
       statistics = Some \<lparr> viewCount = None, commentCount = None \<rparr> \<rparr>"

definition english_track :: transcript where
  "english_track =
     \<lparr> fetch = Inr [\<lparr> entry_text = Some ''hello'' \<rparr>, \<lparr> entry_text = Some ''world'' \<rparr>] \<rparr>"

definition english_only :: transcript_list where
  "english_only =
     \<lparr> find_transcript = (\<lambda>languages. Inr english_track),
       find_manually_created_transcript = (\<lambda>languages. Inl (OtherException ''TypeError'')) \<rparr>"

text \<open>
  One search page with two identifiers and no cursor; details calls that answer with
  the items of \<open>a\<close> and \<open>b\<close> whatever was asked; transcripts for \<open>a\<close> only.
\<close>

definition stub_api :: api where
  "stub_api =
     \<lparr> search_execute = (\<lambda>k request.
          Inr \<lparr> search_items = Some [\<lparr> id_videoId = Some ''a'' \<rparr>, \<lparr> id_videoId = Some ''b'' \<rparr>],
                nextPageToken = None \<rparr>),
       videos_execute = (\<lambda>k request. Inr \<lparr> items = Some [sample_item ''a'', sample_item ''b''] \<rparr>),
       list_transcripts = (\<lambda>vid. if vid = ''a'' then Inr english_only
                                   else Inl (OtherException ''TranscriptsDisabled'')),
       parse_duration = (\<lambda>s. if s = ''PT1M'' then Inr ''0:01:00''
                               else Inl (OtherException ''ISO8601Error'')) \<rparr>"

text \<open>Transcript services that fail at each step of \<open>get_video_captions\<close>.\<close>

definition broken_track :: transcript where
  "broken_track = \<lparr> fetch = Inl (OtherException ''RequestBlocked'') \<rparr>"

definition unreadable_track :: transcript where
  "unreadable_track = \<lparr> fetch = Inr [\<lparr> entry_text = Some ''hello'' \<rparr>, \<lparr> entry_text = None \<rparr>] \<rparr>"

definition tracks_with :: "exn + transcript \<Rightarrow> transcript_list" where
  "tracks_with answer =
     \<lparr> find_transcript = (\<lambda>languages. answer),
       find_manually_created_transcript = (\<lambda>languages. Inl (OtherException ''TypeError'')) \<rparr>"

definition failing_transcripts :: "string \<Rightarrow> exn + transcript_list" where
  "failing_transcripts vid =
     (if vid = ''c'' then Inr (tracks_with (Inl (OtherException ''NoTranscriptFound'')))
      else if vid = ''d'' then Inr (tracks_with (Inr broken_track))
      else if vid = ''e'' then Inr (tracks_with (Inr unreadable_track))
      else Inl (OtherException ''TranscriptsDisabled''))"

text \<open>
  A transcript list without an English track, whose manually created transcript is
  found when no language is given; and one that answers the English lookup with the
  English track and every other lookup with another track.
\<close>

definition manual_track :: transcript where
  "manual_track = \<lparr> fetch = Inr [\<lparr> entry_text = Some ''bonjour'' \<rparr>] \<rparr>"

definition manual_only :: transcript_list where
  "manual_only =
     \<lparr> find_transcript = (\<lambda>languages. Inl (OtherException ''NoTranscriptFound'')),
       find_manually_created_transcript =
         (\<lambda>languages. case languages of
                         None \<Rightarrow> Inr manual_track
                       | Some ls \<Rightarrow> Inl (OtherException ''NoTranscriptFound'')) \<rparr>"

definition english_or_other :: transcript_list where
  "english_or_other =
     \<lparr> find_transcript = (\<lambda>languages. if languages = [''en''] then Inr english_track
                                        else Inr manual_track),
       find_manually_created_transcript = (\<lambda>languages. Inr manual_track) \<rparr>"

text \<open>A quota error, and 51 identifiers: a batch of 50 and a batch of one.\<close>

definition quota_error :: exn where
  "quota_error = HttpError 403 ''quotaExceeded''"

definition fifty_one_ids :: "string list" where
  "fifty_one_ids = replicate 50 ''a'' @ [''b'']"

text \<open>The row assembled from \<open>sample_item vid\<close>.\<close>

definition sample_row :: "string \<Rightarrow> bool \<Rightarrow> string \<Rightarrow> video_info" where
  "sample_row vid has_captions caption_text =
     \<lparr> Video_URL = ''https://www.youtube.com/watch?v='' @ vid, Title = ''Title'',
       Description = ''Text'', Channel_Title = ''Channel'', Keyword_Tags = [],
       YouTube_Video_Category = ''10'', Video_Published_at = ''2020-01-01T00:00:00Z'',
       Video_Duration = ''0:01:00'', View_Count = PyInt 0, Comment_Count = PyInt 0,
       Captions_Available = has_captions, Caption_Text = caption_text \<rparr>"

text \<open>A Unicode database in which nothing beyond ASCII is alphanumeric or space.\<close>

definition ascii_db :: unicode_db where
  "ascii_db = \<lparr> alnum_beyond_ascii = (\<lambda>c. False), space_beyond_ascii = (\<lambda>c. False) \<rparr>"







section \<open>Auxiliary facts\<close>

subsection \<open>The loop over the batches\<close>

declare batch_loop.simps [simp del]

lemma extend_start [simp]: "extend start_state d = d"
  by (simp add: extend_def start_state_def)

lemma extend_fields [simp]:
  "events (extend s d) = events s @ events d"
  "video_data (extend s d) = video_data s @ video_data d"
  by (simp_all add: extend_def)

lemma extend_assoc: "extend (extend s a) b = extend s (extend a b)"
  by (simp add: extend_def)

lemma extend_update:
  "extend s d\<lparr>events := events s @ events d @ evs, video_data := video_data s @ video_data d @ vs\<rparr>
   = extend s (d\<lparr>events := events d @ evs, video_data := video_data d @ vs\<rparr>)"
  by (simp add: extend_def)

lemma extend_update_events:
  "extend s d\<lparr>events := events s @ events d @ evs\<rparr> = extend s (d\<lparr>events := events d @ evs\<rparr>)"
  by (simp add: extend_def)

lemma items_loop_extend:
  "items_loop A its (extend s d) = (fst (items_loop A its d), extend s (snd (items_loop A its d)))"
proof (induction its arbitrary: d)
  case Nil
  then show ?case by simp
next
  case (Cons item rest)
  show ?case
  proof (cases "item_id item")
    case None
    then show ?thesis by (simp add: getitem_def)
  next
    case (Some vid)
    obtain r evs where g: "get_video_captions A vid = (r, evs)" by (cases "get_video_captions A vid")
    show ?thesis
    proof (cases r)
      case (Inl e)
      then show ?thesis using Some g by (simp add: getitem_def extend_update_events)
    next
      case (Inr hc)
      obtain h c where hc: "hc = (h, c)" by (cases hc)
      show ?thesis
      proof (cases "make_video_info A item h c")
        case (Inl e)
        then show ?thesis using Some g Inr hc by (simp add: getitem_def extend_update_events)
      next
        case (Inr vi)
        then show ?thesis using Some g \<open>r = Inr hc\<close> hc Cons.IH
          by (simp add: getitem_def extend_update)
      qed
    qed
  qed
qed

lemma process_batch_extend:
  "process_batch A k b (extend s d) = extend s (process_batch A k b d)"
proof (cases "videos_execute A k (videos_list b)")
  case (Inl e)
  then show ?thesis by (simp add: process_batch_def Let_def extend_def)
next
  case (Inr response)
  show ?thesis
  proof (cases "items response")
    case None
    then show ?thesis using Inr by (simp add: process_batch_def Let_def extend_def)
  next
    case (Some its)
    obtain r t where l: "items_loop A its (d\<lparr>events := events d @ [VideosCall (videos_list b)]\<rparr>) = (r, t)"
      by (cases "items_loop A its (d\<lparr>events := events d @ [VideosCall (videos_list b)]\<rparr>)")
    have "items_loop A its (extend s d\<lparr>events := events s @ events d @ [VideosCall (videos_list b)]\<rparr>)
          = (r, extend s t)"
      using items_loop_extend [of A its s "d\<lparr>events := events d @ [VideosCall (videos_list b)]\<rparr>"] l
      by (simp add: extend_update_events)
    then show ?thesis using Inr Some l
      by (cases r) (simp_all add: process_batch_def Let_def extend_update_events)
  qed
qed

lemma process_batch_start:
  "process_batch A k (batch ids k) s =
     extend s \<lparr> events = batch_events A ids k, video_data = batch_records A ids k \<rparr>"
proof -
  have "process_batch A k (batch ids k) (extend s start_state)
        = extend s (process_batch A k (batch ids k) start_state)"
    by (rule process_batch_extend)
  moreover have "extend s start_state = s" by (simp add: extend_def start_state_def)
  moreover have "process_batch A k (batch ids k) start_state
        = \<lparr> events = batch_events A ids k, video_data = batch_records A ids k \<rparr>"
    by (simp add: batch_events_def batch_records_def)
  ultimately show ?thesis by simp
qed

lemma less_iff_nbatches: "50 * k < length ids \<longleftrightarrow> k < nbatches ids"
proof -
  have "k < nbatches ids \<longleftrightarrow> Suc k \<le> (length ids + 49) div 50"
    by (simp add: nbatches_def Suc_le_eq)
  also have "\<dots> \<longleftrightarrow> Suc k * 50 \<le> length ids + 49"
    by (rule less_eq_div_iff_mult_less_eq) simp
  also have "\<dots> \<longleftrightarrow> 50 * k < length ids" by simp linarith
  finally show ?thesis by simp
qed

lemma batches_from_step:
  "k < nbatches ids \<Longrightarrow>
   batches_from A ids k =
     extend \<lparr> events = batch_events A ids k, video_data = batch_records A ids k \<rparr>
       (batches_from A ids (Suc k))"
  by (simp add: batches_from_def extend_def upt_conv_Cons)

lemma batches_from_end:
  "\<not> k < nbatches ids \<Longrightarrow> batches_from A ids k = start_state"
  by (simp add: batches_from_def start_state_def)

lemma batch_loop_extend:
  "i = 50 * k \<Longrightarrow> batch_loop A ids i s = extend s (batches_from A ids k)"
proof (induction A ids i s arbitrary: k rule: batch_loop.induct)
  case (1 A ids i s)
  show ?case
  proof (cases "i < length ids")
    case True
    then have k: "k < nbatches ids" using 1(2) less_iff_nbatches by simp
    have d: "i div 50 = k" "take 50 (drop i ids) = batch ids k"
      using 1(2) by (simp_all add: batch_def)
    have "batch_loop A ids i s
          = batch_loop A ids (i + 50) (process_batch A k (batch ids k) s)"
      using True d by (subst batch_loop.simps) simp
    also have "\<dots> = extend (process_batch A k (batch ids k) s) (batches_from A ids (Suc k))"
      using 1(1) [OF True, of "Suc k"] 1(2) d by simp
    also have "\<dots> = extend s (batches_from A ids k)"
      by (simp add: process_batch_start batches_from_step [OF k] extend_assoc)
    finally show ?thesis .
  next
    case False
    then have "\<not> k < nbatches ids" using 1(2) less_iff_nbatches by simp
    then show ?thesis using False
      by (subst batch_loop.simps) (simp add: batches_from_end extend_def start_state_def)
  qed
qed

lemma get_video_details_batches:
  "get_video_details A ids =
     (concat (map (batch_records A ids) [0..<nbatches ids]),
      [Print (GettingDetailsFor (length ids)), PbarOpen (int (length ids))]
      @ concat (map (batch_events A ids) [0..<nbatches ids]) @ [PbarClose])"
  using batch_loop_extend [of 0 0 A ids]
  by (simp add: get_video_details_def Let_def batches_from_def)

subsection \<open>Where the pause occurs\<close>

lemma resolve_transcript_no_sleep: "filter is_sleep (snd (resolve_transcript t)) = []"
  by (simp add: resolve_transcript_def split: sum.splits)

lemma captions_try_no_sleep: "filter is_sleep (snd (captions_try A vid)) = []"
proof (cases "list_transcripts A vid")
  case (Inl e)
  then show ?thesis by (simp add: captions_try_def)
next
  case (Inr t)
  obtain r evs where rt: "resolve_transcript t = (r, evs)" by (cases "resolve_transcript t")
  then have "filter is_sleep evs = []" using resolve_transcript_no_sleep [of t] by simp
  then show ?thesis using Inr rt
    by (cases r) (simp_all add: captions_try_def fetch_full_text_def)
qed

lemma get_video_captions_no_sleep: "filter is_sleep (snd (get_video_captions A vid)) = []"
  using captions_try_no_sleep [of A vid]
  by (cases "captions_try A vid") (auto simp: get_video_captions_def split: sum.splits)

lemma items_loop_no_sleep:
  "filter is_sleep (events (snd (items_loop A its s))) = filter is_sleep (events s)"
proof (induction its arbitrary: s)
  case Nil
  then show ?case by simp
next
  case (Cons item rest)
  show ?case
  proof (cases "item_id item")
    case None
    then show ?thesis by (simp add: getitem_def)
  next
    case (Some vid)
    then show ?thesis
      using get_video_captions_no_sleep [of A vid] Cons.IH
      by (cases "get_video_captions A vid") (auto simp: getitem_def split: sum.splits)
  qed
qed

lemma items_loop_fst_extend:
  "fst (items_loop A its s) = fst (items_loop A its start_state)"
proof -
  have "extend s start_state = s" by (simp add: extend_def start_state_def)
  then have "items_loop A its s = items_loop A its (extend s start_state)" by simp
  also have "\<dots> = (fst (items_loop A its start_state), extend s (snd (items_loop A its start_state)))"
    by (rule items_loop_extend)
  finally show ?thesis by simp
qed

lemma batch_events_sleep:
  "filter is_sleep (batch_events A ids k) = (if batch_raises A ids k then [] else [Sleep 100])"
proof (cases "videos_execute A k (videos_list (batch ids k))")
  case (Inl e)
  then show ?thesis
    by (simp add: batch_events_def batch_raises_def process_batch_def Let_def start_state_def)
next
  case (Inr response)
  show ?thesis
  proof (cases "items response")
    case None
    then show ?thesis using Inr
      by (simp add: batch_events_def batch_raises_def process_batch_def Let_def start_state_def)
  next
    case (Some its)
    let ?s1 = "start_state\<lparr>events := events start_state @ [VideosCall (videos_list (batch ids k))]\<rparr>"
    obtain r t where l: "items_loop A its ?s1 = (r, t)" by (cases "items_loop A its ?s1")
    have f: "filter is_sleep (events t) = []"
      using items_loop_no_sleep [of A its ?s1] l by (simp add: start_state_def)
    have r: "r = fst (items_loop A its start_state)"
      using items_loop_fst_extend [of A its ?s1] l by simp
    show ?thesis
    proof (cases r)
      case None
      then show ?thesis using Inr Some l f r
        by (simp add: batch_events_def batch_raises_def process_batch_def Let_def)
    next
      case (Some e)
      have "fst (items_loop A its start_state) = Some e" using r Some by simp
      then show ?thesis using Inr \<open>items response = Some its\<close> l f Some
        by (simp add: batch_events_def batch_raises_def process_batch_def Let_def)
    qed
  qed
qed

lemma batch_events_last:
  assumes ok: "\<not> batch_raises A ids k"
  shows "\<exists>evs. batch_events A ids k = evs @ [Sleep 100]"
proof (cases "videos_execute A k (videos_list (batch ids k))")
  case (Inl e)
  then show ?thesis using ok by (simp add: batch_raises_def)
next
  case (Inr response)
  show ?thesis
  proof (cases "items response")
    case None
    then show ?thesis using Inr
      by (simp add: batch_events_def process_batch_def Let_def)
  next
    case (Some its)
    let ?s1 = "start_state\<lparr>events := events start_state @ [VideosCall (videos_list (batch ids k))]\<rparr>"
    obtain r t where l: "items_loop A its ?s1 = (r, t)" by (cases "items_loop A its ?s1")
    have "r = fst (items_loop A its start_state)"
      using items_loop_fst_extend [of A its ?s1] l by simp
    then have "r = None" using ok Inr Some by (simp add: batch_raises_def)
    then show ?thesis using Inr Some l
      by (simp add: batch_events_def process_batch_def Let_def)
  qed
qed

lemma filter_concat_sleep:
  "filter is_sleep (concat (map (batch_events A ids) ks))
   = replicate (length (filter (\<lambda>k. \<not> batch_raises A ids k) ks)) (Sleep 100)"
  by (induction ks) (simp_all add: batch_events_sleep)

subsection \<open>What a turn depends on\<close>

lemma captions_try_cong:
  assumes "list_transcripts A' = list_transcripts A"
  shows "captions_try A' vid = captions_try A vid"
  unfolding captions_try_def assms by (rule refl)

lemma get_video_captions_cong:
  assumes "list_transcripts A' = list_transcripts A"
  shows "get_video_captions A' vid = get_video_captions A vid"
  unfolding get_video_captions_def captions_try_cong [OF assms] by (rule refl)

lemma make_video_info_cong:
  assumes "parse_duration A' = parse_duration A"
  shows "make_video_info A' item h c = make_video_info A item h c"
  unfolding make_video_info_def assms by (rule refl)

lemma items_loop_cong:
  assumes "list_transcripts A' = list_transcripts A" and "parse_duration A' = parse_duration A"
  shows "items_loop A' its s = items_loop A its s"
proof (induction its arbitrary: s)
  case Nil
  then show ?case by simp
next
  case (Cons item rest)
  show ?case
    unfolding items_loop.simps get_video_captions_cong [OF assms(1)]
      make_video_info_cong [OF assms(2)] Cons.IH
    by (rule refl)
qed

lemma process_batch_cong:
  assumes "list_transcripts A' = list_transcripts A" and "parse_duration A' = parse_duration A"
    and "videos_execute A' k = videos_execute A k"
  shows "process_batch A' k b s = process_batch A k b s"
  unfolding process_batch_def items_loop_cong [OF assms(1,2)] assms(3)
  by (rule refl)

lemma batch_records_fail_other:
  assumes "j \<noteq> k"
  shows "batch_records (fail_batch A k e) ids j = batch_records A ids j"
proof -
  have "process_batch (fail_batch A k e) j (batch ids j) start_state
        = process_batch A j (batch ids j) start_state"
    by (rule process_batch_cong) (simp_all add: fail_batch_def assms)
  then show ?thesis by (simp add: batch_records_def)
qed

lemma batch_records_fail_same: "batch_records (fail_batch A k e) ids k = []"
  by (simp add: batch_records_def fail_batch_def process_batch_def Let_def start_state_def)

lemma concat_map_fail_batch:
  "concat (map (batch_records (fail_batch A k e) ids) js)
   = concat (map (batch_records A ids) (filter (\<lambda>j. j \<noteq> k) js))"
  by (induction js) (simp_all add: batch_records_fail_other batch_records_fail_same)

lemma items_loop_all_rows:
  "fst (items_loop A its s) = None \<Longrightarrow>
   length (video_data (snd (items_loop A its s))) = length (video_data s) + length its"
proof (induction its arbitrary: s)
  case Nil
  then show ?case by simp
next
  case (Cons item rest)
  show ?case
  proof (cases "item_id item")
    case None
    then show ?thesis using Cons.prems by (simp add: getitem_def)
  next
    case (Some vid)
    obtain r evs where g: "get_video_captions A vid = (r, evs)" by (cases "get_video_captions A vid")
    show ?thesis
    proof (cases r)
      case (Inl e)
      then show ?thesis using Some g Cons.prems by (simp add: getitem_def)
    next
      case (Inr hc)
      obtain h c where hc: "hc = (h, c)" by (cases hc)
      show ?thesis
      proof (cases "make_video_info A item h c")
        case (Inl e)
        then show ?thesis using Some g Inr hc Cons.prems by (simp add: getitem_def)
      next
        case (Inr vi)
        then show ?thesis using Some g \<open>r = Inr hc\<close> hc Cons.IH Cons.prems
          by (simp add: getitem_def)
      qed
    qed
  qed
qed

lemma batch_records_one_row_per_id:
  assumes "one_row_per_id A ids k"
  shows "length (batch_records A ids k) = length (batch ids k)"
proof -
  obtain response its where r: "videos_execute A k (videos_list (batch ids k)) = Inr response"
    and i: "items response = Some its" and n: "length its = length (batch ids k)"
    and ok: "fst (items_loop A its start_state) = None"
    using assms by (auto simp: one_row_per_id_def split: sum.splits option.splits)
  let ?s1 = "start_state\<lparr>events := events start_state @ [VideosCall (videos_list (batch ids k))]\<rparr>"
  obtain x t where l: "items_loop A its ?s1 = (x, t)" by (cases "items_loop A its ?s1")
  have x: "x = None" using items_loop_fst_extend [of A its ?s1] l ok by simp
  have "length (video_data t) = length its"
    using items_loop_all_rows [of A its ?s1] l x by (simp add: start_state_def)
  then show ?thesis using r i l x n
    by (simp add: batch_records_def process_batch_def Let_def)
qed

lemma filter_neq_upt:
  "k < n \<Longrightarrow> filter (\<lambda>j. j \<noteq> k) [0..<n] = [0..<k] @ [Suc k..<n]"
proof -
  assume "k < n"
  then have "[0..<n] = [0..<k] @ k # [Suc k..<n]"
    using upt_add_eq_append [of 0 k "n - k"] by (simp add: upt_conv_Cons)
  then show ?thesis by (simp add: filter_id_conv)
qed

subsection \<open>Assembled rows\<close>

lemma and_then_Inr: "and_then m f = Inr y \<longleftrightarrow> (\<exists>x. m = Inr x \<and> f x = Inr y)"
  by (cases m) (simp_all add: and_then_def)

lemma getitem_Inr: "getitem key v = Inr x \<longleftrightarrow> v = Some x"
  by (cases v) (simp_all add: getitem_def)

lemma make_video_info_Inr:
  assumes "make_video_info A item h c = Inr r"
  shows "\<exists>vid sn cd st. item_id item = Some vid \<and> snippet item = Some sn
           \<and> contentDetails item = Some cd \<and> statistics item = Some st
           \<and> Video_URL r = ''https://www.youtube.com/watch?v='' @ vid
           \<and> Keyword_Tags r = join '','' (case tags sn of None \<Rightarrow> [] | Some ts \<Rightarrow> ts)
           \<and> View_Count r = (case viewCount st of None \<Rightarrow> PyInt 0 | Some v \<Rightarrow> v)
           \<and> Comment_Count r = (case commentCount st of None \<Rightarrow> PyInt 0 | Some v \<Rightarrow> v)
           \<and> Captions_Available r = h
           \<and> Caption_Text r = (if h then c else [])"
  using assms unfolding make_video_info_def and_then_Inr getitem_Inr
  by (elim exE conjE) (simp, force)

lemma make_video_info_captions:
  "make_video_info A item h c =
     (case make_video_info A item False [] of
        Inl e \<Rightarrow> Inl e
      | Inr r \<Rightarrow> Inr (r\<lparr>Captions_Available := h, Caption_Text := (if h then c else [])\<rparr>))"
  unfolding make_video_info_def and_then_def
  by (simp split: sum.splits)

lemma get_video_captions_cases:
  "(\<exists>t evs. get_video_captions A vid = (Inr (True, t), evs))
   \<or> (\<exists>evs. get_video_captions A vid = (Inr (False, []), evs))"
  by (cases "captions_try A vid") (auto simp: get_video_captions_def split: sum.splits)

lemma items_loop_caption_fields:
  "\<forall>r \<in> set (video_data s). caption_fields_from A r \<Longrightarrow>
   \<forall>r \<in> set (video_data (snd (items_loop A its s))). caption_fields_from A r"
proof (induction its arbitrary: s)
  case Nil
  then show ?case by simp
next
  case (Cons item rest)
  show ?case
  proof (cases "item_id item")
    case None
    then show ?thesis using Cons.prems by (simp add: getitem_def)
  next
    case (Some vid)
    obtain h c evs where g: "get_video_captions A vid = (Inr (h, c), evs)"
      and hc: "h \<or> c = []"
      using get_video_captions_cases [of A vid] by auto
    show ?thesis
    proof (cases "make_video_info A item h c")
      case (Inl e)
      then show ?thesis using Some g Cons.prems by (simp add: getitem_def)
    next
      case (Inr vi)
      have "caption_fields_from A vi"
        using make_video_info_Inr [OF Inr] Some g hc
        by (auto simp: caption_fields_from_def)
      then have "\<forall>r \<in> set (video_data (s\<lparr>events := events s @ evs @ [PbarUpdate],
                       video_data := video_data s @ [vi]\<rparr>)). caption_fields_from A r"
        using Cons.prems by simp
      from Cons.IH [OF this] show ?thesis using Some g Inr by (simp add: getitem_def)
    qed
  qed
qed

lemma batch_records_caption_fields:
  "\<forall>r \<in> set (batch_records A ids k). caption_fields_from A r"
proof (cases "videos_execute A k (videos_list (batch ids k))")
  case (Inl e)
  then show ?thesis by (simp add: batch_records_def process_batch_def Let_def start_state_def)
next
  case (Inr response)
  show ?thesis
  proof (cases "items response")
    case None
    then show ?thesis using Inr
      by (simp add: batch_records_def process_batch_def Let_def start_state_def)
  next
    case (Some its)
    let ?s1 = "start_state\<lparr>events := events start_state @ [VideosCall (videos_list (batch ids k))]\<rparr>"
    obtain x t where l: "items_loop A its ?s1 = (x, t)" by (cases "items_loop A its ?s1")
    have "\<forall>r \<in> set (video_data t). caption_fields_from A r"
      using items_loop_caption_fields [of ?s1 A its] l by (simp add: start_state_def)
    then show ?thesis using Inr Some l
      by (cases x) (simp_all add: batch_records_def process_batch_def Let_def)
  qed
qed

lemma blank_update [simp]: "blank (r\<lparr>Captions_Available := h, Caption_Text := c\<rparr>) = blank r"
  by (simp add: blank_def)

lemma items_loop_blank:
  assumes pd: "parse_duration A' = parse_duration A"
  shows "map blank (video_data s') = map blank (video_data s) \<Longrightarrow>
         fst (items_loop A' its s') = fst (items_loop A its s)
         \<and> map blank (video_data (snd (items_loop A' its s')))
             = map blank (video_data (snd (items_loop A its s)))"
proof (induction its arbitrary: s s')
  case Nil
  then show ?case by simp
next
  case (Cons item rest)
  show ?case
  proof (cases "item_id item")
    case None
    then show ?thesis using Cons.prems by (simp add: getitem_def)
  next
    case (Some vid)
    obtain h c evs where g: "get_video_captions A vid = (Inr (h, c), evs)"
      using get_video_captions_cases [of A vid] by auto
    obtain h' c' evs' where g': "get_video_captions A' vid = (Inr (h', c'), evs')"
      using get_video_captions_cases [of A' vid] by auto
    have m: "make_video_info A item h c =
       (case make_video_info A item False [] of
          Inl e \<Rightarrow> Inl e
        | Inr r \<Rightarrow> Inr (r\<lparr>Captions_Available := h, Caption_Text := (if h then c else [])\<rparr>))"
      by (rule make_video_info_captions)
    have m': "make_video_info A' item h' c' =
       (case make_video_info A item False [] of
          Inl e \<Rightarrow> Inl e
        | Inr r \<Rightarrow> Inr (r\<lparr>Captions_Available := h', Caption_Text := (if h' then c' else [])\<rparr>))"
      unfolding make_video_info_cong [OF pd] by (rule make_video_info_captions)
    show ?thesis
    proof (cases "make_video_info A item False []")
      case (Inl e)
      then show ?thesis using Some g g' m m' Cons.prems by (simp add: getitem_def)
    next
      case (Inr r0)
      let ?t = "s\<lparr>events := events s @ evs @ [PbarUpdate],
                  video_data := video_data s @ [r0\<lparr>Captions_Available := h, Caption_Text := (if h then c else [])\<rparr>]\<rparr>"
      let ?t' = "s'\<lparr>events := events s' @ evs' @ [PbarUpdate],
                  video_data := video_data s' @ [r0\<lparr>Captions_Available := h', Caption_Text := (if h' then c' else [])\<rparr>]\<rparr>"
      have "map blank (video_data ?t') = map blank (video_data ?t)"
        using Cons.prems by simp
      from Cons.IH [OF this] show ?thesis using Some g g' m m' Inr by (simp add: getitem_def)
    qed
  qed
qed

lemma batch_records_blank:
  assumes pd: "parse_duration A' = parse_duration A"
    and ve: "videos_execute A' = videos_execute A"
  shows "map blank (batch_records A' ids k) = map blank (batch_records A ids k)"
proof (cases "videos_execute A k (videos_list (batch ids k))")
  case (Inl e)
  then show ?thesis unfolding batch_records_def process_batch_def Let_def ve by simp
next
  case (Inr response)
  show ?thesis
  proof (cases "items response")
    case None
    then show ?thesis using Inr unfolding batch_records_def process_batch_def Let_def ve by simp
  next
    case (Some its)
    let ?s1 = "start_state\<lparr>events := events start_state @ [VideosCall (videos_list (batch ids k))]\<rparr>"
    obtain x t where l: "items_loop A its ?s1 = (x, t)" by (cases "items_loop A its ?s1")
    obtain x' t' where l': "items_loop A' its ?s1 = (x', t')" by (cases "items_loop A' its ?s1")
    have "x' = x \<and> map blank (video_data t') = map blank (video_data t)"
      using items_loop_blank [OF pd, of ?s1 ?s1 its] l l' by simp
    then show ?thesis using Inr Some l l'
      unfolding batch_records_def process_batch_def Let_def ve
      by (cases x) simp_all
  qed
qed

subsection \<open>The search loop\<close>

lemma ids_loop_events:
  "filter is_search_call (events (snd (ids_loop its s))) = filter is_search_call (events s)"
  by (induction its arbitrary: s) (simp_all add: getitem_def split: option.splits)

lemma ids_loop_ok:
  "list_all (\<lambda>item. id_videoId item \<noteq> None) its \<Longrightarrow>
   fst (ids_loop its s) = None \<and> video_ids (snd (ids_loop its s)) = video_ids s @ ids_of its
   \<and> next_page_token (snd (ids_loop its s)) = next_page_token s
   \<and> calls (snd (ids_loop its s)) = calls s"
  by (induction its arbitrary: s) (auto simp: getitem_def ids_of_def)

lemma ids_loop_raises:
  "\<not> list_all (\<lambda>item. id_videoId item \<noteq> None) its \<Longrightarrow> \<exists>e. fst (ids_loop its s) = Some e"
  by (induction its arbitrary: s) (auto simp: getitem_def split: option.splits)

lemma ids_of_map [simp]: "ids_of (map (\<lambda>v. \<lparr> id_videoId = Some v \<rparr>) vs) = vs"
  by (induction vs) (simp_all add: ids_of_def)






section \<open>The search paginator\<close>

text \<open>
  Claim C5. For every query and every \<open>max_results\<close> that is zero or negative,
  \<open>search_videos_by_genre\<close> returns the empty list, and no call of the search
  collaborator is among its events.
\<close>

theorem search_nonpositive_no_calls:
  assumes "max_results \<le> 0"
  shows "\<exists>evs. search_videos_by_genre A genre max_results = Some ([], evs)
           \<and> filter is_search_call evs = []"
proof -
  have "search_loop A genre max_results (search_start genre max_results)
        = Some (None, search_start genre max_results)"
    using assms by (subst search_loop.simps) (simp add: search_start_def)
  then show ?thesis
    by (simp add: search_videos_by_genre_def search_start_def)
qed

text \<open>At \<open>max_results = 0\<close>, with the query "chess".\<close>

theorem search_nonpositive_no_calls_witness:
  "(0::int) \<le> 0
   \<and> (\<exists>evs. search_videos_by_genre stub_api (pystr_of ''chess'') 0 = Some ([], evs)
           \<and> filter is_search_call evs = [])"
  using search_nonpositive_no_calls [of 0 stub_api "pystr_of ''chess''"] by simp

text \<open>
  Claim C4. Whatever the positive \<open>max_results\<close>: when the answer to the first search
  call carries no cursor, \<open>search_videos_by_genre\<close> returns, the first call is the only
  search call among its events, and the result holds the identifiers of that page
  and no others (none at all when the page has no items; if an item of the page
  exposes no identifier, the outer handler returns the empty list).
\<close>

theorem search_single_page:
  assumes pos: "0 < max_results"
    and first: "search_execute A 0 (search_list genre (min 50 max_results) None) = Inr response"
    and nocursor: "nextPageToken response = None"
  shows "\<exists>ids evs. search_videos_by_genre A genre max_results = Some (ids, evs)
           \<and> filter is_search_call evs = [SearchCall (search_list genre (min 50 max_results) None)]
           \<and> ids = (case search_items response of
                      None \<Rightarrow> []
                    | Some its \<Rightarrow>
                        if list_all (\<lambda>item. id_videoId item \<noteq> None) its then ids_of its else [])"
proof (cases "search_items response")
  case None
  have "search_loop A genre max_results (search_start genre max_results)
        = Some (None, (search_start genre max_results)
             \<lparr>events := events (search_start genre max_results)
                 @ [SearchCall (search_list genre (min 50 max_results) None), Print NoVideosInResponse],
              calls := 1\<rparr>)"
    using pos first None by (subst search_loop.simps) (simp add: search_start_def Let_def)
  then show ?thesis using None
    by (simp add: search_videos_by_genre_def) (simp add: search_start_def)
next
  case (Some its)
  let ?s1 = "(search_start genre max_results)
             \<lparr>events := events (search_start genre max_results)
                 @ [SearchCall (search_list genre (min 50 max_results) None)],
              calls := 1\<rparr>"
  obtain x t where l: "ids_loop its ?s1 = (x, t)" by (cases "ids_loop its ?s1")
  have ev: "filter is_search_call (events t) = [SearchCall (search_list genre (min 50 max_results) None)]"
    using ids_loop_events [of its ?s1] l by (simp add: search_start_def)
  show ?thesis
  proof (cases "list_all (\<lambda>item. id_videoId item \<noteq> None) its")
    case True
    have x: "x = None" and v: "video_ids t = ids_of its"
      using ids_loop_ok [OF True, of ?s1] l by (simp_all add: search_start_def)
    have "\<exists>t'. search_loop A genre max_results (search_start genre max_results) = Some (None, t')
            \<and> video_ids t' = ids_of its \<and> filter is_search_call (events t') = filter is_search_call (events t)"
      using pos first Some l x v nocursor
      by (subst search_loop.simps) (simp add: search_start_def Let_def falsy_def)
    then show ?thesis using Some True ev
      by (auto simp: search_videos_by_genre_def)
  next
    case False
    obtain e where x: "x = Some e" using ids_loop_raises [OF False, of ?s1] l by auto
    have "search_loop A genre max_results (search_start genre max_results) = Some (Some e, t)"
      using pos first Some l x
      by (subst search_loop.simps) (simp add: search_start_def Let_def)
    then show ?thesis using Some False ev
      by (simp add: search_videos_by_genre_def)
  qed
qed

text \<open>A page of two identifiers without cursor, asked for 500.\<close>

theorem search_single_page_witness:
  "(0::int) < 500
   \<and> search_execute stub_api 0 (search_list (pystr_of ''chess'') (min 50 500) None)
       = Inr \<lparr> search_items = Some [\<lparr> id_videoId = Some ''a'' \<rparr>, \<lparr> id_videoId = Some ''b'' \<rparr>],
               nextPageToken = None \<rparr>
   \<and> (\<exists>evs. search_videos_by_genre stub_api (pystr_of ''chess'') 500 = Some ([''a'', ''b''], evs)
           \<and> filter is_search_call evs = [SearchCall (search_list (pystr_of ''chess'') 50 None)])"
proof -
  have h1: "(0::int) < 500" by simp
  have h2: "search_execute stub_api 0 (search_list (pystr_of ''chess'') (min 50 500) None)
       = Inr \<lparr> search_items = Some [\<lparr> id_videoId = Some ''a'' \<rparr>, \<lparr> id_videoId = Some ''b'' \<rparr>],
               nextPageToken = None \<rparr>"
    by (simp add: stub_api_def)
  have h3: "nextPageToken \<lparr> search_items = Some [\<lparr> id_videoId = Some ''a'' \<rparr>, \<lparr> id_videoId = Some ''b'' \<rparr>],
               nextPageToken = None \<rparr> = None"
    by simp
  show ?thesis using h1 h2 search_single_page [OF h1 h2 h3]
    by (auto simp: ids_of_def)
qed






section \<open>The transcript fetcher\<close>

lemma entry_texts_missing:
  "\<exists>entry \<in> set caption_data. entry_text entry = None \<Longrightarrow> \<exists>e. entry_texts caption_data = Inl e"
proof (induction caption_data)
  case Nil
  then show ?case by simp
next
  case (Cons entry rest)
  show ?case
  proof (cases "entry_text entry")
    case None
    then show ?thesis by (simp add: getitem_def and_then_def)
  next
    case (Some t)
    then have "\<exists>e. entry_texts rest = Inl e" using Cons by auto
    then show ?thesis using Some by (auto simp: getitem_def and_then_def)
  qed
qed

lemma captions_try_fails_cases:
  assumes "list_transcripts A vid = Inr transcript_list"
  shows "fst (captions_try A vid) =
           (case fst (resolve_transcript transcript_list) of
              Inl e \<Rightarrow> Inl e
            | Inr tr \<Rightarrow>
               (case fetch tr of
                  Inl e \<Rightarrow> Inl e
                | Inr caption_data \<Rightarrow>
                   (case entry_texts caption_data of
                      Inl e \<Rightarrow> Inl e
                    | Inr ts \<Rightarrow> Inr (join '' '' ts))))"
  using assms
  by (cases "resolve_transcript transcript_list")
     (simp add: captions_try_def fetch_full_text_def and_then_def split: sum.splits)

lemma get_video_captions_of_failure:
  "fst (captions_try A vid) = Inl e \<Longrightarrow> fst (get_video_captions A vid) = Inr (False, [])"
  by (cases "captions_try A vid") (simp add: get_video_captions_def)

text \<open>
  Claim C6. For every video identifier \<open>get_video_captions\<close> returns to its caller and
  raises nothing. Whenever a step of its body fails, the result is \<open>(False, "")\<close>:
  when the listing of the transcripts fails, when the lookup of the preferred
  language and the fallback lookup both fail, when the fetch of the resolved
  transcript fails, and when a fetched entry cannot be read.
\<close>

theorem get_video_captions_total:
  "(\<exists>result. fst (get_video_captions A video_id) = Inr result)
   \<and> ((\<exists>e. fst (captions_try A video_id) = Inl e)
        \<longrightarrow> fst (get_video_captions A video_id) = Inr (False, []))
   \<and> ((\<exists>e. list_transcripts A video_id = Inl e)
        \<longrightarrow> fst (get_video_captions A video_id) = Inr (False, []))
   \<and> (\<forall>transcript_list.
         list_transcripts A video_id = Inr transcript_list
         \<and> (\<exists>e. find_transcript transcript_list [''en''] = Inl e)
         \<and> (\<exists>e. find_manually_created_transcript transcript_list None = Inl e)
        \<longrightarrow> fst (get_video_captions A video_id) = Inr (False, []))
   \<and> (\<forall>transcript_list tr.
         list_transcripts A video_id = Inr transcript_list
         \<and> fst (resolve_transcript transcript_list) = Inr tr
         \<and> (\<exists>e. fetch tr = Inl e)
        \<longrightarrow> fst (get_video_captions A video_id) = Inr (False, []))
   \<and> (\<forall>transcript_list tr caption_data.
         list_transcripts A video_id = Inr transcript_list
         \<and> fst (resolve_transcript transcript_list) = Inr tr
         \<and> fetch tr = Inr caption_data
         \<and> (\<exists>entry \<in> set caption_data. entry_text entry = None)
        \<longrightarrow> fst (get_video_captions A video_id) = Inr (False, []))"
proof (intro conjI allI impI)
  show "\<exists>result. fst (get_video_captions A video_id) = Inr result"
    using get_video_captions_cases [of A video_id] by auto
next
  assume "\<exists>e. fst (captions_try A video_id) = Inl e"
  then show "fst (get_video_captions A video_id) = Inr (False, [])"
    using get_video_captions_of_failure by blast
next
  assume "\<exists>e. list_transcripts A video_id = Inl e"
  then have "\<exists>e. fst (captions_try A video_id) = Inl e"
    by (auto simp: captions_try_def)
  then show "fst (get_video_captions A video_id) = Inr (False, [])"
    using get_video_captions_of_failure by blast
next
  fix transcript_list
  assume a: "list_transcripts A video_id = Inr transcript_list
         \<and> (\<exists>e. find_transcript transcript_list [''en''] = Inl e)
         \<and> (\<exists>e. find_manually_created_transcript transcript_list None = Inl e)"
  then have "\<exists>e. fst (resolve_transcript transcript_list) = Inl e"
    by (auto simp: resolve_transcript_def)
  then have "\<exists>e. fst (captions_try A video_id) = Inl e"
    using a captions_try_fails_cases [of A video_id transcript_list] by auto
  then show "fst (get_video_captions A video_id) = Inr (False, [])"
    using get_video_captions_of_failure by blast
next
  fix transcript_list tr
  assume a: "list_transcripts A video_id = Inr transcript_list
         \<and> fst (resolve_transcript transcript_list) = Inr tr
         \<and> (\<exists>e. fetch tr = Inl e)"
  then have "\<exists>e. fst (captions_try A video_id) = Inl e"
    using captions_try_fails_cases [of A video_id transcript_list] by auto
  then show "fst (get_video_captions A video_id) = Inr (False, [])"
    using get_video_captions_of_failure by blast
next
  fix transcript_list tr caption_data
  assume a: "list_transcripts A video_id = Inr transcript_list
         \<and> fst (resolve_transcript transcript_list) = Inr tr
         \<and> fetch tr = Inr caption_data
         \<and> (\<exists>entry \<in> set caption_data. entry_text entry = None)"
  then have "\<exists>e. entry_texts caption_data = Inl e" using entry_texts_missing by blast
  then have "\<exists>e. fst (captions_try A video_id) = Inl e"
    using a captions_try_fails_cases [of A video_id transcript_list] by auto
  then show "fst (get_video_captions A video_id) = Inr (False, [])"
    using get_video_captions_of_failure by blast
qed

text \<open>
  Four videos: one whose transcripts cannot be listed, one for which both lookups
  fail, one whose transcript cannot be fetched, one with an entry without text.
\<close>

theorem get_video_captions_total_witness:
  "list_transcripts (stub_api\<lparr>list_transcripts := failing_transcripts\<rparr>) ''b''
     = Inl (OtherException ''TranscriptsDisabled'')
   \<and> fst (get_video_captions (stub_api\<lparr>list_transcripts := failing_transcripts\<rparr>) ''b'') = Inr (False, [])
   \<and> find_transcript (tracks_with (Inl (OtherException ''NoTranscriptFound''))) [''en'']
       = Inl (OtherException ''NoTranscriptFound'')
   \<and> find_manually_created_transcript (tracks_with (Inl (OtherException ''NoTranscriptFound''))) None
       = Inl (OtherException ''TypeError'')
   \<and> fst (get_video_captions (stub_api\<lparr>list_transcripts := failing_transcripts\<rparr>) ''c'') = Inr (False, [])
   \<and> fst (resolve_transcript (tracks_with (Inr broken_track))) = Inr broken_track
   \<and> fetch broken_track = Inl (OtherException ''RequestBlocked'')
   \<and> fst (get_video_captions (stub_api\<lparr>list_transcripts := failing_transcripts\<rparr>) ''d'') = Inr (False, [])
   \<and> fst (resolve_transcript (tracks_with (Inr unreadable_track))) = Inr unreadable_track
   \<and> fetch unreadable_track = Inr [\<lparr> entry_text = Some ''hello'' \<rparr>, \<lparr> entry_text = None \<rparr>]
   \<and> fst (get_video_captions (stub_api\<lparr>list_transcripts := failing_transcripts\<rparr>) ''e'') = Inr (False, [])"
proof -
  let ?A = "stub_api\<lparr>list_transcripts := failing_transcripts\<rparr>"
  have b: "list_transcripts ?A ''b'' = Inl (OtherException ''TranscriptsDisabled'')"
    by (simp add: failing_transcripts_def)
  have c: "list_transcripts ?A ''c'' = Inr (tracks_with (Inl (OtherException ''NoTranscriptFound'')))"
    by (simp add: failing_transcripts_def)
  have c1: "find_transcript (tracks_with (Inl (OtherException ''NoTranscriptFound''))) [''en'']
       = Inl (OtherException ''NoTranscriptFound'')"
    by (simp add: tracks_with_def)
  have c2: "find_manually_created_transcript (tracks_with (Inl (OtherException ''NoTranscriptFound''))) None
       = Inl (OtherException ''TypeError'')"
    by (simp add: tracks_with_def)
  have d: "list_transcripts ?A ''d'' = Inr (tracks_with (Inr broken_track))"
    by (simp add: failing_transcripts_def)
  have d1: "fst (resolve_transcript (tracks_with (Inr broken_track))) = Inr broken_track"
    by (simp add: resolve_transcript_def tracks_with_def)
  have d2: "fetch broken_track = Inl (OtherException ''RequestBlocked'')"
    by (simp add: broken_track_def)
  have e: "list_transcripts ?A ''e'' = Inr (tracks_with (Inr unreadable_track))"
    by (simp add: failing_transcripts_def)
  have e1: "fst (resolve_transcript (tracks_with (Inr unreadable_track))) = Inr unreadable_track"
    by (simp add: resolve_transcript_def tracks_with_def)
  have e2: "fetch unreadable_track = Inr [\<lparr> entry_text = Some ''hello'' \<rparr>, \<lparr> entry_text = None \<rparr>]"
    by (simp add: unreadable_track_def)
  have e3: "\<exists>entry \<in> set [\<lparr> entry_text = Some ''hello'' \<rparr>, \<lparr> entry_text = None \<rparr>]. entry_text entry = None"
    by simp
  have rb: "fst (get_video_captions ?A ''b'') = Inr (False, [])"
    using b get_video_captions_total [of ?A "''b''"] by blast
  have rc: "fst (get_video_captions ?A ''c'') = Inr (False, [])"
    using c c1 c2 get_video_captions_total [of ?A "''c''"] by blast
  have rd: "fst (get_video_captions ?A ''d'') = Inr (False, [])"
    using d d1 d2 get_video_captions_total [of ?A "''d''"] by blast
  have re: "fst (get_video_captions ?A ''e'') = Inr (False, [])"
    using e e1 e2 e3 get_video_captions_total [of ?A "''e''"] by blast
  show ?thesis using b c1 c2 d1 d2 e1 e2 rb rc rd re by blast
qed

lemma get_video_captions_resolved:
  "get_video_captions A video_id =
     (case list_transcripts A video_id of
        Inl e \<Rightarrow> (Inr (False, []), [ListTranscripts video_id])
      | Inr transcript_list \<Rightarrow>
         (case resolve_transcript transcript_list of
            (Inl e, evs) \<Rightarrow> (Inr (False, []), ListTranscripts video_id # evs)
          | (Inr tr, evs) \<Rightarrow> (Inr (captions_from tr), ListTranscripts video_id # evs @ [Fetch])))"
proof (cases "list_transcripts A video_id")
  case (Inl e)
  then show ?thesis by (simp add: get_video_captions_def captions_try_def)
next
  case (Inr transcript_list)
  obtain r evs where rt: "resolve_transcript transcript_list = (r, evs)"
    by (cases "resolve_transcript transcript_list")
  show ?thesis
  proof (cases r)
    case (Inl e)
    then show ?thesis using Inr rt by (simp add: get_video_captions_def captions_try_def)
  next
    case (Inr tr)
    then show ?thesis using \<open>list_transcripts A video_id = Inr transcript_list\<close> rt
      by (simp add: get_video_captions_def captions_try_def fetch_full_text_def
            captions_from_def and_then_def split: sum.splits)
  qed
qed

text \<open>
  Claim C10. For every video identifier, once the transcripts are listed,
  \<open>get_video_captions\<close> first looks the English track up, asking for \<open>["en"]\<close>. When that
  lookup succeeds, the captions returned are those of the track it found, and the
  fallback is not attempted. Only when it fails is a manually created transcript
  looked up, with no language given, and the captions returned are those of the
  transcript which that lookup finds, or \<open>(False, "")\<close> when it fails too. Result and
  events are determined by the answers to exactly these calls.
\<close>

theorem english_lookup_first:
  "get_video_captions A video_id =
     (case list_transcripts A video_id of
        Inl e \<Rightarrow> (Inr (False, []), [ListTranscripts video_id])
      | Inr transcript_list \<Rightarrow>
         (case find_transcript transcript_list [''en''] of
            Inr tr \<Rightarrow>
              (Inr (captions_from tr),
               [ListTranscripts video_id, FindTranscript [''en''], Fetch])
          | Inl e \<Rightarrow>
             (case find_manually_created_transcript transcript_list None of
                Inr tr \<Rightarrow>
                  (Inr (captions_from tr),
                   [ListTranscripts video_id, FindTranscript [''en''],
                    FindManuallyCreatedTranscript None, Fetch])
              | Inl e' \<Rightarrow>
                  (Inr (False, []),
                   [ListTranscripts video_id, FindTranscript [''en''],
                    FindManuallyCreatedTranscript None]))))"
  unfolding get_video_captions_resolved
  by (simp add: resolve_transcript_def split: sum.splits)

text \<open>
  A video whose English lookup succeeds while every other lookup would find another
  track, and a video without English track whose manually created transcript is found
  only when no language is given.
\<close>

theorem english_lookup_first_witness:
  "get_video_captions (stub_api\<lparr>list_transcripts := (\<lambda>vid. Inr english_or_other)\<rparr>) ''a''
     = (Inr (True, ''hello world''), [ListTranscripts ''a'', FindTranscript [''en''], Fetch])
   \<and> get_video_captions (stub_api\<lparr>list_transcripts := (\<lambda>vid. Inr manual_only)\<rparr>) ''a''
     = (Inr (True, ''bonjour''),
        [ListTranscripts ''a'', FindTranscript [''en''], FindManuallyCreatedTranscript None, Fetch])"
proof -
  have c1: "captions_from english_track = (True, ''hello world'')"
    by (simp add: captions_from_def english_track_def and_then_def getitem_def)
  have c2: "captions_from manual_track = (True, ''bonjour'')"
    by (simp add: captions_from_def manual_track_def and_then_def getitem_def)
  show ?thesis
    using english_lookup_first [of "stub_api\<lparr>list_transcripts := (\<lambda>vid. Inr english_or_other)\<rparr>" "''a''"]
      english_lookup_first [of "stub_api\<lparr>list_transcripts := (\<lambda>vid. Inr manual_only)\<rparr>" "''a''"]
    by (simp add: c1 c2 english_or_other_def manual_only_def)
qed

section \<open>The detail enricher\<close>

subsection \<open>Concrete runs\<close>

lemma nbatches_small: "nbatches [x, y] = 1" "nbatches [x, y, z] = 1"
  by (simp_all add: nbatches_def)

lemma batch_small: "batch [x, y] 0 = [x, y]" "batch [x, y, z] 0 = [x, y, z]"
  by (simp_all add: batch_def)

lemma stub_videos_execute:
  "videos_execute stub_api k request = Inr \<lparr> items = Some [sample_item ''a'', sample_item ''b''] \<rparr>"
  by (simp add: stub_api_def)

lemma stub_captions:
  "get_video_captions stub_api ''a''
     = (Inr (True, ''hello world''), [ListTranscripts ''a'', FindTranscript [''en''], Fetch])"
  "get_video_captions stub_api ''b'' = (Inr (False, []), [ListTranscripts ''b''])"
  by (simp_all add: get_video_captions_def captions_try_def resolve_transcript_def
        fetch_full_text_def stub_api_def english_only_def english_track_def
        and_then_def getitem_def)

lemma stub_make_video_info:
  "make_video_info stub_api (sample_item vid) h c = Inr (sample_row vid h (if h then c else []))"
  by (simp add: make_video_info_def sample_item_def sample_row_def stub_api_def
        and_then_def getitem_def)

lemma stub_items_loop:
  "items_loop stub_api [sample_item ''a'', sample_item ''b''] s =
     (None, s\<lparr>events := events s @ [ListTranscripts ''a'', FindTranscript [''en''], Fetch,
                                      PbarUpdate, ListTranscripts ''b'', PbarUpdate],
             video_data := video_data s @ [sample_row ''a'' True ''hello world'',
                                           sample_row ''b'' False []]\<rparr>)"
proof -
  have i: "item_id (sample_item ''a'') = Some ''a''" "item_id (sample_item ''b'') = Some ''b''"
    by (simp_all add: sample_item_def)
  show ?thesis
    by (simp add: i getitem_def stub_captions stub_make_video_info)
qed

lemma stub_process_batch:
  "process_batch stub_api k ids start_state =
     \<lparr> events = [VideosCall (videos_list ids), ListTranscripts ''a'', FindTranscript [''en''],
                 Fetch, PbarUpdate, ListTranscripts ''b'', PbarUpdate, Sleep 100],
       video_data = [sample_row ''a'' True ''hello world'', sample_row ''b'' False []] \<rparr>"
proof -
  have v: "videos_execute stub_api k (videos_list ids)
           = Inr \<lparr> items = Some [sample_item ''a'', sample_item ''b''] \<rparr>"
    by (simp add: stub_api_def)
  show ?thesis
    by (simp add: process_batch_def Let_def v stub_items_loop start_state_def del: items_loop.simps)
qed

lemma failed_process_batch:
  "process_batch (fail_batch A k e) k ids start_state =
     \<lparr> events = [VideosCall (videos_list ids), Print (ErrorProcessingBatch e)], video_data = [] \<rparr>"
  by (simp add: process_batch_def Let_def fail_batch_def start_state_def)

lemma stub_rows:
  "fst (get_video_details stub_api [''a'', ''b''])
     = [sample_row ''a'' True ''hello world'', sample_row ''b'' False []]"
  by (simp add: get_video_details_batches nbatches_small batch_records_def stub_process_batch)

subsection \<open>Defaults of an assembled row\<close>

lemma items_loop_assembled:
  "\<forall>r \<in> set (video_data (snd (items_loop A its s))).
     r \<in> set (video_data s) \<or> (\<exists>item \<in> set its. assembled_from A item r)"
proof (induction its arbitrary: s)
  case Nil
  then show ?case by simp
next
  case (Cons item rest)
  show ?case
  proof (cases "item_id item")
    case None
    then show ?thesis by (simp add: getitem_def)
  next
    case (Some vid)
    obtain h c evs where g: "get_video_captions A vid = (Inr (h, c), evs)"
      using get_video_captions_cases [of A vid] by auto
    show ?thesis
    proof (cases "make_video_info A item h c")
      case (Inl e)
      then show ?thesis using Some g by (simp add: getitem_def)
    next
      case (Inr vi)
      let ?t = "s\<lparr>events := events s @ evs @ [PbarUpdate], video_data := video_data s @ [vi]\<rparr>"
      have a: "assembled_from A item vi" using Inr by (auto simp: assembled_from_def)
      have "\<forall>r \<in> set (video_data (snd (items_loop A rest ?t))).
              r \<in> set (video_data ?t) \<or> (\<exists>item \<in> set rest. assembled_from A item r)"
        by (rule Cons.IH)
      then have "\<forall>r \<in> set (video_data (snd (items_loop A rest ?t))).
              r \<in> set (video_data s) \<or> (\<exists>i \<in> set (item # rest). assembled_from A i r)"
        using a by auto
      then show ?thesis using Some g Inr by (simp add: getitem_def)
    qed
  qed
qed

lemma batch_records_assembled:
  assumes "r \<in> set (batch_records A ids k)"
  shows "\<exists>response its item. videos_execute A k (videos_list (batch ids k)) = Inr response
           \<and> items response = Some its \<and> item \<in> set its \<and> assembled_from A item r"
proof (cases "videos_execute A k (videos_list (batch ids k))")
  case (Inl e)
  then show ?thesis using assms
    by (simp add: batch_records_def process_batch_def Let_def start_state_def)
next
  case (Inr response)
  show ?thesis
  proof (cases "items response")
    case None
    then show ?thesis using Inr assms
      by (simp add: batch_records_def process_batch_def Let_def start_state_def)
  next
    case (Some its)
    let ?s1 = "start_state\<lparr>events := events start_state @ [VideosCall (videos_list (batch ids k))]\<rparr>"
    obtain x t where l: "items_loop A its ?s1 = (x, t)" by (cases "items_loop A its ?s1")
    have "\<forall>r \<in> set (video_data t). \<exists>item \<in> set its. assembled_from A item r"
      using items_loop_assembled [of A its ?s1] l by (simp add: start_state_def)
    moreover have "batch_records A ids k = video_data t" using Inr Some l
      by (cases x) (simp_all add: batch_records_def process_batch_def Let_def)
    ultimately show ?thesis using Inr Some assms by auto
  qed
qed

text \<open>
  Claim C8. Every row that \<open>get_video_details\<close> returns is assembled from an item of
  the response to one of its details calls. In a row assembled from an item, the
  view count is \<open>0\<close> when the item's statistics lack \<open>viewCount\<close>, the comment count
  is \<open>0\<close> when they lack \<open>commentCount\<close>, and the tags are the empty list, joined to
  the empty string, when the item's snippet lacks \<open>tags\<close>.
\<close>

theorem missing_counts_and_tags_default:
  "(\<forall>r \<in> set (fst (get_video_details A ids)).
      \<exists>k response its item. k < nbatches ids
        \<and> videos_execute A k (videos_list (batch ids k)) = Inr response
        \<and> items response = Some its \<and> item \<in> set its \<and> assembled_from A item r)
   \<and> (assembled_from A item video_info \<longrightarrow>
        (\<exists>sn st. snippet item = Some sn \<and> statistics item = Some st
           \<and> (viewCount st = None \<longrightarrow> View_Count video_info = PyInt 0)
           \<and> (commentCount st = None \<longrightarrow> Comment_Count video_info = PyInt 0)
           \<and> (tags sn = None \<longrightarrow>
                Keyword_Tags video_info = join '','' [] \<and> Keyword_Tags video_info = [])))"
proof (intro conjI ballI impI)
  fix r
  assume "r \<in> set (fst (get_video_details A ids))"
  then obtain k where "k < nbatches ids" and "r \<in> set (batch_records A ids k)"
    by (auto simp: get_video_details_batches)
  then show "\<exists>k response its item. k < nbatches ids
        \<and> videos_execute A k (videos_list (batch ids k)) = Inr response
        \<and> items response = Some its \<and> item \<in> set its \<and> assembled_from A item r"
    using batch_records_assembled by blast
next
  assume "assembled_from A item video_info"
  then obtain h c where "make_video_info A item h c = Inr video_info"
    by (auto simp: assembled_from_def)
  from make_video_info_Inr [OF this]
  show "\<exists>sn st. snippet item = Some sn \<and> statistics item = Some st
           \<and> (viewCount st = None \<longrightarrow> View_Count video_info = PyInt 0)
           \<and> (commentCount st = None \<longrightarrow> Comment_Count video_info = PyInt 0)
           \<and> (tags sn = None \<longrightarrow>
                Keyword_Tags video_info = join '','' [] \<and> Keyword_Tags video_info = [])"
    by auto
qed

text \<open>The row of \<open>b\<close>, an item without counts and tags.\<close>

theorem missing_counts_and_tags_default_witness:
  "sample_row ''b'' False [] \<in> set (fst (get_video_details stub_api [''a'', ''b'']))
   \<and> assembled_from stub_api (sample_item ''b'') (sample_row ''b'' False [])
   \<and> viewCount \<lparr> viewCount = None, commentCount = None \<rparr> = None
   \<and> commentCount \<lparr> viewCount = None, commentCount = None \<rparr> = None
   \<and> (\<exists>sn. snippet (sample_item ''b'') = Some sn \<and> tags sn = None)
   \<and> statistics (sample_item ''b'') = Some \<lparr> viewCount = None, commentCount = None \<rparr>
   \<and> View_Count (sample_row ''b'' False []) = PyInt 0
   \<and> Comment_Count (sample_row ''b'' False []) = PyInt 0
   \<and> Keyword_Tags (sample_row ''b'' False []) = []"
proof -
  have h1: "sample_row ''b'' False [] \<in> set (fst (get_video_details stub_api [''a'', ''b'']))"
    by (simp add: stub_rows)
  have "make_video_info stub_api (sample_item ''b'') False [] = Inr (sample_row ''b'' False [])"
    by (simp add: stub_make_video_info)
  then have h2: "assembled_from stub_api (sample_item ''b'') (sample_row ''b'' False [])"
    unfolding assembled_from_def by blast
  have s: "snippet (sample_item ''b'') =
             Some \<lparr> title = Some ''Title'', description = Some ''Text'',
                    channelTitle = Some ''Channel'', tags = None, categoryId = Some ''10'',
                    publishedAt = Some ''2020-01-01T00:00:00Z'' \<rparr>"
    and t: "statistics (sample_item ''b'') = Some \<lparr> viewCount = None, commentCount = None \<rparr>"
    by (simp_all add: sample_item_def)
  show ?thesis
    using h1 h2 s t
      missing_counts_and_tags_default
        [where A = stub_api and ids = "[''a'', ''b'']" and item = "sample_item ''b''"
           and video_info = "sample_row ''b'' False []"]
    by auto
qed

subsection \<open>The pause between batches\<close>

text \<open>
  What the loop does with the pause of line 158. The events of \<open>get_video_details\<close>
  are the events of its batches in order, between the opening and the closing of the
  progress bar. A batch that raises nothing ends with \<open>time.sleep(0.1)\<close>, its only
  pause. A batch that raises, in its details call or while an item is processed, has
  no pause among its events.
\<close>

lemma pause_only_after_completed_batch:
  "snd (get_video_details A ids) =
     [Print (GettingDetailsFor (length ids)), PbarOpen (int (length ids))]
     @ concat (map (batch_events A ids) [0..<nbatches ids]) @ [PbarClose]
   \<and> (\<forall>k. \<not> batch_raises A ids k \<longrightarrow>
          (\<exists>evs. batch_events A ids k = evs @ [Sleep 100] \<and> filter is_sleep evs = []))
   \<and> (\<forall>k. batch_raises A ids k \<longrightarrow> filter is_sleep (batch_events A ids k) = [])
   \<and> filter is_sleep (snd (get_video_details A ids)) =
       replicate (length (filter (\<lambda>k. \<not> batch_raises A ids k) [0..<nbatches ids])) (Sleep 100)"
proof (intro conjI allI impI)
  show "snd (get_video_details A ids) =
     [Print (GettingDetailsFor (length ids)), PbarOpen (int (length ids))]
     @ concat (map (batch_events A ids) [0..<nbatches ids]) @ [PbarClose]"
    by (simp add: get_video_details_batches)
next
  fix k
  assume ok: "\<not> batch_raises A ids k"
  then obtain evs where e: "batch_events A ids k = evs @ [Sleep 100]"
    using batch_events_last by blast
  have "filter is_sleep (batch_events A ids k) = [Sleep 100]"
    using ok by (simp add: batch_events_sleep)
  then have "filter is_sleep evs = []" using e by simp
  then show "\<exists>evs. batch_events A ids k = evs @ [Sleep 100] \<and> filter is_sleep evs = []"
    using e by blast
next
  fix k
  assume "batch_raises A ids k"
  then show "filter is_sleep (batch_events A ids k) = []"
    by (simp add: batch_events_sleep)
next
  show "filter is_sleep (snd (get_video_details A ids)) =
       replicate (length (filter (\<lambda>k. \<not> batch_raises A ids k) [0..<nbatches ids])) (Sleep 100)"
    by (simp add: get_video_details_batches filter_concat_sleep)
qed

lemma fifty_one_batches:
  "nbatches fifty_one_ids = 2"
  "batch fifty_one_ids 0 = replicate 50 ''a''"
  "batch fifty_one_ids 1 = [''b'']"
  by (simp_all add: nbatches_def batch_def fifty_one_ids_def)

lemma upt_two: "[0..<2] = [0, Suc 0]"
  by (simp add: numeral_2_eq_2)

text \<open>
  Claim C1. A fixed short delay is to follow each batch, also a batch whose details
  call failed: the pause stands at the level of the loop, after the \<open>try\<close>, under the
  comment "Add a small delay to avoid API quota issues". The code does not keep this:
  the handler of line 153 leaves the turn with \<open>continue\<close>, before the pause. With 51
  identifiers and a first details call that fails with a quota error, the second
  details call follows the error message at once; the only pause of the run is the
  one after the second batch.
\<close>

theorem failed_batch_has_no_delay:
  "nbatches fifty_one_ids = 2
   \<and> videos_execute (fail_batch stub_api 0 quota_error) 0 (videos_list (batch fifty_one_ids 0))
       = Inl quota_error
   \<and> snd (get_video_details (fail_batch stub_api 0 quota_error) fifty_one_ids) =
       [Print (GettingDetailsFor 51), PbarOpen 51,
        VideosCall (videos_list (replicate 50 ''a'')),
        Print (ErrorProcessingBatch quota_error),
        VideosCall (videos_list [''b'']),
        ListTranscripts ''a'', FindTranscript [''en''], Fetch, PbarUpdate,
        ListTranscripts ''b'', PbarUpdate, Sleep 100, PbarClose]
   \<and> filter is_sleep (snd (get_video_details (fail_batch stub_api 0 quota_error) fifty_one_ids))
       = [Sleep 100]"
proof -
  have v: "videos_execute (fail_batch stub_api 0 quota_error) 0 (videos_list (batch fifty_one_ids 0))
       = Inl quota_error"
    by (simp add: fail_batch_def)
  have e0: "batch_events (fail_batch stub_api 0 quota_error) fifty_one_ids 0
           = [VideosCall (videos_list (replicate 50 ''a'')), Print (ErrorProcessingBatch quota_error)]"
    by (simp add: batch_events_def fifty_one_batches failed_process_batch)
  have "process_batch (fail_batch stub_api 0 quota_error) 1 [''b''] start_state
        = process_batch stub_api 1 [''b''] start_state"
    by (rule process_batch_cong) (simp_all add: fail_batch_def)
  then have e1: "batch_events (fail_batch stub_api 0 quota_error) fifty_one_ids (Suc 0)
           = [VideosCall (videos_list [''b'']), ListTranscripts ''a'', FindTranscript [''en''],
              Fetch, PbarUpdate, ListTranscripts ''b'', PbarUpdate, Sleep 100]"
    using fifty_one_batches(3) by (simp add: batch_events_def stub_process_batch)
  have n: "length fifty_one_ids = 51" by (simp add: fifty_one_ids_def)
  show ?thesis
    using v by (simp add: get_video_details_batches fifty_one_batches(1) upt_two e0 e1 n)
qed

subsection \<open>A failing batch\<close>

text \<open>
  Claim C2, as the code has it. Take any list of identifiers and a batch \<open>k\<close> whose
  details call, when it succeeds, answers with one item per identifier of the batch,
  each assembled into a row. If that call fails instead, and every other call answers
  as before, \<open>get_video_details\<close> returns exactly the size of batch \<open>k\<close> fewer rows.
  The batches after \<open>k\<close> are still processed: the result is the rows of the batches
  before \<open>k\<close> followed by the rows of the batches after it, as they are in the run
  without the failure.
\<close>

theorem failed_batch_drops_its_rows:
  assumes "k < nbatches ids" and "one_row_per_id A ids k"
  shows "length (fst (get_video_details (fail_batch A k e) ids)) + length (batch ids k)
           = length (fst (get_video_details A ids))
         \<and> fst (get_video_details A ids) = concat (map (batch_records A ids) [0..<nbatches ids])
         \<and> fst (get_video_details (fail_batch A k e) ids) =
             concat (map (batch_records A ids) [0..<k])
             @ concat (map (batch_records A ids) [Suc k..<nbatches ids])"
proof -
  have all: "fst (get_video_details A ids) = concat (map (batch_records A ids) [0..<nbatches ids])"
    by (simp add: get_video_details_batches)
  have split: "[0..<nbatches ids] = [0..<k] @ k # [Suc k..<nbatches ids]"
    using assms(1) upt_add_eq_append [of 0 k "nbatches ids - k"] by (simp add: upt_conv_Cons)
  have failed: "fst (get_video_details (fail_batch A k e) ids) =
             concat (map (batch_records A ids) [0..<k])
             @ concat (map (batch_records A ids) [Suc k..<nbatches ids])"
    using filter_neq_upt [OF assms(1)]
    by (simp add: get_video_details_batches concat_map_fail_batch)
  have "length (fst (get_video_details A ids)) =
          length (fst (get_video_details (fail_batch A k e) ids)) + length (batch_records A ids k)"
    unfolding all failed by (subst split) simp
  then show ?thesis
    using all failed batch_records_one_row_per_id [OF assms(2)] by simp
qed

text \<open>Two identifiers, two items in the answer.\<close>

theorem failed_batch_drops_its_rows_witness:
  "(0::nat) < nbatches [''a'', ''b'']
   \<and> one_row_per_id stub_api [''a'', ''b''] 0
   \<and> length (fst (get_video_details (fail_batch stub_api 0 (HttpError 500 [])) [''a'', ''b'']))
       + length (batch [''a'', ''b''] 0)
       = length (fst (get_video_details stub_api [''a'', ''b'']))"
proof -
  have h1: "(0::nat) < nbatches [''a'', ''b'']" by (simp add: nbatches_small)
  have h2: "one_row_per_id stub_api [''a'', ''b''] 0"
    by (simp add: one_row_per_id_def stub_videos_execute stub_items_loop batch_small
          del: items_loop.simps)
  show ?thesis
    using h1 h2 failed_batch_drops_its_rows [OF h1 h2, of "HttpError 500 []"] by blast
qed

text \<open>
  Claim C2 as stated lets the successful answer be any answer. Here the details call
  for three identifiers answers with two items (the third video is gone): the run
  with the failing call has two rows fewer, not three.
\<close>

theorem failed_batch_row_count_counterexample:
  "nbatches [''a'', ''b'', ''c''] = 1
   \<and> length (batch [''a'', ''b'', ''c''] 0) = 3
   \<and> videos_execute stub_api 0 (videos_list (batch [''a'', ''b'', ''c''] 0))
       = Inr \<lparr> items = Some [sample_item ''a'', sample_item ''b''] \<rparr>
   \<and> fst (get_video_details stub_api [''a'', ''b'', ''c''])
       = [sample_row ''a'' True ''hello world'', sample_row ''b'' False []]
   \<and> fst (get_video_details (fail_batch stub_api 0 (HttpError 500 [])) [''a'', ''b'', ''c'']) = []
   \<and> length (fst (get_video_details (fail_batch stub_api 0 (HttpError 500 [])) [''a'', ''b'', ''c'']))
       + length (batch [''a'', ''b'', ''c''] 0)
       \<noteq> length (fst (get_video_details stub_api [''a'', ''b'', ''c'']))"
proof -
  have v: "videos_execute stub_api 0 (videos_list (batch [''a'', ''b'', ''c''] 0))
       = Inr \<lparr> items = Some [sample_item ''a'', sample_item ''b''] \<rparr>"
    by (simp add: stub_api_def)
  have s: "fst (get_video_details stub_api [''a'', ''b'', ''c''])
       = [sample_row ''a'' True ''hello world'', sample_row ''b'' False []]"
    by (simp add: get_video_details_batches nbatches_small batch_records_def stub_process_batch)
  have f: "fst (get_video_details (fail_batch stub_api 0 (HttpError 500 [])) [''a'', ''b'', ''c'']) = []"
    by (simp add: get_video_details_batches nbatches_small batch_records_fail_same)
  show ?thesis using v s f by (simp add: nbatches_small batch_small)
qed


subsection \<open>A failing transcript\<close>

lemma caption_fields_failure:
  assumes "caption_fields_from A r"
  shows "\<exists>vid. Video_URL r = ''https://www.youtube.com/watch?v='' @ vid
           \<and> fst (get_video_captions A vid) = Inr (Captions_Available r, Caption_Text r)
           \<and> ((\<exists>e. fst (captions_try A vid) = Inl e)
                \<longrightarrow> \<not> Captions_Available r \<and> Caption_Text r = [])"
proof -
  obtain vid where u: "Video_URL r = ''https://www.youtube.com/watch?v='' @ vid"
    and g: "fst (get_video_captions A vid) = Inr (Captions_Available r, Caption_Text r)"
    using assms by (auto simp: caption_fields_from_def)
  have "(\<exists>e. fst (captions_try A vid) = Inl e) \<longrightarrow> \<not> Captions_Available r \<and> Caption_Text r = []"
  proof
    assume "\<exists>e. fst (captions_try A vid) = Inl e"
    then have "fst (get_video_captions A vid) = Inr (False, [])"
      using get_video_captions_of_failure by blast
    then show "\<not> Captions_Available r \<and> Caption_Text r = []" using g by simp
  qed
  then show ?thesis using u g by blast
qed

lemma map_blank_concat:
  assumes "\<And>k. map blank (f k) = map blank (g k)"
  shows "map blank (concat (map f ks)) = map blank (concat (map g ks))"
  by (induction ks) (simp_all add: assms)

text \<open>
  Claim C7. Whatever the transcript service answers, \<open>get_video_details\<close> returns the
  same number of rows, and the same rows but for their two caption fields: a failing
  transcript fetch removes no row. Every row carries in its caption fields what
  \<open>get_video_captions\<close> returned for its video; when the fetch for that video fails,
  the row has \<open>Captions Available = False\<close> and the empty \<open>Caption Text\<close>.
\<close>

theorem transcript_failure_keeps_rows:
  "length (fst (get_video_details (A\<lparr>list_transcripts := T\<rparr>) ids))
     = length (fst (get_video_details A ids))
   \<and> map blank (fst (get_video_details (A\<lparr>list_transcripts := T\<rparr>) ids))
       = map blank (fst (get_video_details A ids))
   \<and> (\<forall>r \<in> set (fst (get_video_details A ids)).
         \<exists>vid. Video_URL r = ''https://www.youtube.com/watch?v='' @ vid
           \<and> fst (get_video_captions A vid) = Inr (Captions_Available r, Caption_Text r)
           \<and> ((\<exists>e. fst (captions_try A vid) = Inl e)
                \<longrightarrow> \<not> Captions_Available r \<and> Caption_Text r = []))"
proof -
  have b: "\<And>k. map blank (batch_records (A\<lparr>list_transcripts := T\<rparr>) ids k)
             = map blank (batch_records A ids k)"
    by (rule batch_records_blank) simp_all
  have m: "map blank (fst (get_video_details (A\<lparr>list_transcripts := T\<rparr>) ids))
       = map blank (fst (get_video_details A ids))"
    unfolding get_video_details_batches fst_conv by (rule map_blank_concat) (rule b)
  have "length (map blank (fst (get_video_details (A\<lparr>list_transcripts := T\<rparr>) ids)))
       = length (map blank (fst (get_video_details A ids)))"
    using m by simp
  then have l: "length (fst (get_video_details (A\<lparr>list_transcripts := T\<rparr>) ids))
     = length (fst (get_video_details A ids))"
    by simp
  have c: "\<forall>r \<in> set (fst (get_video_details A ids)). caption_fields_from A r"
    using batch_records_caption_fields [of A ids]
    by (auto simp: get_video_details_batches)
  show ?thesis using l m c caption_fields_failure by blast
qed

text \<open>The video \<open>b\<close> has no transcripts; its row is there, without captions.\<close>

theorem transcript_failure_keeps_rows_witness:
  "sample_row ''b'' False [] \<in> set (fst (get_video_details stub_api [''a'', ''b'']))
   \<and> fst (captions_try stub_api ''b'') = Inl (OtherException ''TranscriptsDisabled'')
   \<and> length (fst (get_video_details stub_api [''a'', ''b''])) = 2
   \<and> length (fst (get_video_details (stub_api\<lparr>list_transcripts := (\<lambda>vid. Inr english_only)\<rparr>)
                     [''a'', ''b''])) = 2"
proof -
  have h: "sample_row ''b'' False [] \<in> set (fst (get_video_details stub_api [''a'', ''b'']))"
    by (simp add: stub_rows)
  have f: "fst (captions_try stub_api ''b'') = Inl (OtherException ''TranscriptsDisabled'')"
    by (simp add: captions_try_def stub_api_def)
  have n: "length (fst (get_video_details stub_api [''a'', ''b''])) = 2"
    by (simp add: stub_rows)
  show ?thesis
    using h f n
      transcript_failure_keeps_rows
        [where A = stub_api and T = "\<lambda>vid. Inr english_only" and ids = "[''a'', ''b'']"]
    by simp
qed

section \<open>The output file name\<close>

lemma set_dropWhile_subset: "set (dropWhile P xs) \<subseteq> set xs"
  by (induction xs) auto

lemma set_strip_subset: "set (strip U s) \<subseteq> set s"
proof -
  have "set (strip U s) = set (dropWhile (isspace U) (rev (dropWhile (isspace U) s)))"
    by (simp add: strip_def)
  also have "\<dots> \<subseteq> set (rev (dropWhile (isspace U) s))" by (rule set_dropWhile_subset)
  also have "\<dots> = set (dropWhile (isspace U) s)" by simp
  also have "\<dots> \<subseteq> set s" by (rule set_dropWhile_subset)
  finally show ?thesis .
qed

lemma strip_decompose:
  "\<exists>pre post. s = pre @ strip U s @ post \<and> list_all (isspace U) pre \<and> list_all (isspace U) post"
proof -
  let ?m = "dropWhile (isspace U) s"
  have 1: "s = takeWhile (isspace U) s @ ?m" by simp
  have "rev (takeWhile (isspace U) (rev ?m) @ dropWhile (isspace U) (rev ?m)) = ?m"
    by (simp only: takeWhile_dropWhile_id rev_rev_ident)
  then have 2: "?m = strip U s @ rev (takeWhile (isspace U) (rev ?m))"
    by (simp only: rev_append strip_def)
  have 3: "list_all (isspace U) (takeWhile (isspace U) s)"
    by (simp add: list_all_iff) (meson set_takeWhileD)
  have 4: "list_all (isspace U) (rev (takeWhile (isspace U) (rev ?m)))"
    by (simp add: list_all_iff) (meson set_takeWhileD)
  have "s = takeWhile (isspace U) s @ strip U s @ rev (takeWhile (isspace U) (rev ?m))"
    using 1 2 by (metis)
  then show ?thesis using 3 4 by blast
qed

lemma safe_genre_strip: "safe_genre U genre = strip U (filter (allowed U) genre)"
proof -
  have "allowed U = (\<lambda>c. isalnum U c \<or> c \<in> set (pystr_of '' -_''))"
    by (rule ext) (simp add: allowed_def)
  then show ?thesis by (simp add: safe_genre_def)
qed

text \<open>
  Claim C9. For every topic, the sanitized name that \<open>collect_data\<close> puts into the file
  name holds only alphanumeric characters, spaces, hyphens and underscores: it is the
  topic with every other character dropped, less the whitespace that \<open>strip\<close> takes
  from both ends. The topic "rock/metal!" gives "rockmetal". The file name is that
  name between \<open>output/youtube_\<close> and the time stamp.
\<close>

theorem safe_genre_keeps_only_allowed:
  "(\<forall>c \<in> set (safe_genre U genre). isalnum U c \<or> c \<in> set (pystr_of '' -_''))
   \<and> (\<exists>pre post. filter (allowed U) genre = pre @ safe_genre U genre @ post
          \<and> list_all (isspace U) pre \<and> list_all (isspace U) post)
   \<and> safe_genre U (pystr_of ''rock/metal!'') = pystr_of ''rockmetal''
   \<and> output_file U genre timestamp =
       pystr_of ''output/youtube_'' @ safe_genre U genre @ pystr_of ''_'' @ timestamp
       @ pystr_of ''.csv''"
proof (intro conjI)
  have "safe_genre U genre = strip U (filter (allowed U) genre)"
    by (rule safe_genre_strip)
  then have "set (safe_genre U genre) \<subseteq> set (filter (allowed U) genre)"
    using set_strip_subset [of U "filter (allowed U) genre"] by simp
  then show "\<forall>c \<in> set (safe_genre U genre). isalnum U c \<or> c \<in> set (pystr_of '' -_'')"
    by (auto simp: allowed_def)
next
  have "safe_genre U genre = strip U (filter (allowed U) genre)"
    by (rule safe_genre_strip)
  then show "\<exists>pre post. filter (allowed U) genre = pre @ safe_genre U genre @ post
          \<and> list_all (isspace U) pre \<and> list_all (isspace U) post"
    using strip_decompose [of "filter (allowed U) genre" U] by simp
next
  show "safe_genre U (pystr_of ''rock/metal!'') = pystr_of ''rockmetal''"
    by (simp add: safe_genre_def pystr_of_def isalnum_def strip_def isspace_def)
next
  show "output_file U genre timestamp =
       pystr_of ''output/youtube_'' @ safe_genre U genre @ pystr_of ''_'' @ timestamp
       @ pystr_of ''.csv''"
    by (simp add: output_file_def pystr_of_def)
qed

text \<open>A topic with an ampersand and with spaces at both ends.\<close>

theorem safe_genre_keeps_only_allowed_witness:
  "safe_genre ascii_db (pystr_of '' rock & roll '') = pystr_of ''rock  roll''
   \<and> 114 \<in> set (safe_genre ascii_db (pystr_of '' rock & roll ''))
   \<and> (isalnum ascii_db 114 \<or> 114 \<in> set (pystr_of '' -_''))"
proof -
  have e: "safe_genre ascii_db (pystr_of '' rock & roll '') = pystr_of ''rock  roll''"
    by (simp add: safe_genre_def pystr_of_def isalnum_def strip_def isspace_def)
  have h: "114 \<in> set (safe_genre ascii_db (pystr_of '' rock & roll ''))"
    by (simp add: e) (simp add: pystr_of_def)
  show ?thesis
    using e h safe_genre_keeps_only_allowed [of ascii_db "pystr_of '' rock & roll ''"]
    by blast
qed

end
